theory Spec2Isabelle
  imports Complex_Main "HOL-Library.AList" "HOL-Library.Signed_Division"
begin

section \<open>Stochastic block model partition state (graph\_blockmodel.hh)\<close>

text \<open>
  A shallow embedding of \<^verbatim>\<open>BlockState\<close> (src/graph/inference/graph\_blockmodel.hh) and of
  \<^verbatim>\<open>multicanonical_sweep\<close> (src/graph/inference/multicanonical\_loop.hh).

  Conventions of the embedding.
  \<^item> Vertex and block identifiers (\<^verbatim>\<open>size_t\<close>) are natural numbers; \<^verbatim>\<open>null_group\<close> is the
    largest \<^verbatim>\<open>size_t\<close>.
  \<^item> The \<^verbatim>\<open>int32_t\<close> property maps (\<^verbatim>\<open>_wr\<close>, \<^verbatim>\<open>_mrp\<close>, \<^verbatim>\<open>_mrm\<close>, \<^verbatim>\<open>_mrs\<close>, the weights) are
    maps into \<open>int\<close>: signed overflow is undefined in the source and is not modelled.
    A property map is a total function; reading it at an identifier that is not a vertex
    of its graph is undefined in the source, and the theorems carry the range
    hypotheses where they matter.
  \<^item> An exception is a value of \<open>error\<close>. A member function that mutates the object
    returns \<open>error option \<times> state\<close>: the state it leaves behind and the exception that
    is propagating, if any.
  \<^item> Assertions are compiled out (the optimised build).
  \<^item> The edge covariates (\<^verbatim>\<open>_rec_types\<close> is empty), the edge-group sampler \<^verbatim>\<open>_egroups\<close> and
    the contents of \<^verbatim>\<open>_partition_stats\<close> are written but never read by the fields
    modelled here and are left out; only whether the partition statistics are enabled
    is kept.
\<close>

datatype error =
    ValueException string
  | GraphException string
  | UndefinedBehaviour string

definition null_group :: nat where
  "null_group = 2 ^ 64 - 1"

subsection \<open>The graph collaborator\<close>

datatype edge = Edge (source: nat) (target: nat) (edge_index: nat)

record graph =
  is_directed :: bool
  num_vertices :: nat
  edge_list :: "(nat \<times> nat) list"

text \<open>
  Modelled from the spec: the graph storage and its edge iteration are external
  collaborators (spec section 6), not part of the repository's sources. An edge is
  identified by its index in \<open>edge_list\<close>. On an undirected graph the out-edges of a
  vertex are all its incident edges, each seen from that vertex, so that a self-loop is
  listed twice (the source halves \<^verbatim>\<open>deltal\<close> and the merged self-loop weight for that
  reason), and there are no in-edges.
\<close>

definition out_edges_range :: "graph \<Rightarrow> nat \<Rightarrow> edge list" where
  "out_edges_range gr v =
     concat (map (\<lambda>(i, (s, t)).
                (if s = v then [Edge v t i] else []) @
                (if \<not> is_directed gr \<and> t = v then [Edge v s i] else []))
             (enumerate 0 (edge_list gr)))"

definition in_edges_range :: "graph \<Rightarrow> nat \<Rightarrow> edge list" where
  "in_edges_range gr v =
     (if is_directed gr
      then concat (map (\<lambda>(i, (s, t)). if t = v then [Edge s v i] else [])
                       (enumerate 0 (edge_list gr)))
      else [])"

definition all_edges_range :: "graph \<Rightarrow> nat \<Rightarrow> edge list" where
  "all_edges_range gr v = out_edges_range gr v @ in_edges_range gr v"

definition vertices_range :: "graph \<Rightarrow> nat list" where
  "vertices_range gr = [0 ..< num_vertices gr]"

subsection \<open>The state\<close>

type_synonym entries = "((nat \<times> nat) \<times> int) list"

record entropy_args_t =
  adjacency :: bool
  dense :: bool
  multigraph :: bool
  exact :: bool
  partition_dl :: bool
  degree_dl :: bool
  degree_dl_kind :: int
  edges_dl :: bool
  recs :: bool

text \<open>
  The fields of \<^verbatim>\<open>BLOCK_STATE_params\<close> and the private members. The block graph \<^verbatim>\<open>_bg\<close>,
  the edge index \<^verbatim>\<open>_emat\<close> and the edge property \<^verbatim>\<open>_mrs\<close> are kept together as the
  association list \<open>mrs\<close>: one pair per edge of the block graph, keyed by the block pair
  that \<^verbatim>\<open>_emat\<close> files the edge under, with the edge's count.
\<close>

record block_state =
  g :: graph
  is_weighted :: bool
  eweight_map :: "nat \<Rightarrow> int"
  vweight_map :: "nat \<Rightarrow> int"
  bg_num_vertices :: nat
  mrs :: "((nat \<times> nat) \<times> int) list"
  mrp :: "nat \<Rightarrow> int"
  mrm :: "nat \<Rightarrow> int"
  wr :: "nat \<Rightarrow> int"
  b :: "nat \<Rightarrow> nat"
  empty_blocks :: "nat list"
  empty_pos :: "nat \<Rightarrow> nat"
  candidate_blocks :: "nat list"
  candidate_pos :: "nat \<Rightarrow> nat"
  bclabel :: "nat \<Rightarrow> nat"
  deg_corr :: bool
  m_entries :: entries
  partition_stats_enabled :: bool
  coupled_entropy_args :: entropy_args_t

text \<open>\<^verbatim>\<open>BlockState* _coupled_state\<close>: the parent level of the hierarchy, if any.\<close>

datatype BlockState = BlockState (level: block_state) (coupled_state: "BlockState option")

text \<open>
  \<^verbatim>\<open>_vweight\<close> and \<^verbatim>\<open>_eweight\<close> are the stored maps of a weighted state and the constant 1
  (\<^verbatim>\<open>UnityPropertyMap\<close>) otherwise.
\<close>

definition vweight :: "block_state \<Rightarrow> nat \<Rightarrow> int" where
  "vweight st v = (if is_weighted st then vweight_map st v else 1)"

definition eweight :: "block_state \<Rightarrow> edge \<Rightarrow> int" where
  "eweight st e = (if is_weighted st then eweight_map st (edge_index e) else 1)"

subsection \<open>Block edge index and move entries\<close>

text \<open>
  Modelled from the spec: the block edge index (spec section 4.1) lives in
  graph\_blockmodel\_util.hh, which is not among the sources. \<open>get(r,s)\<close> returns the
  aggregate record or a null sentinel; on an undirected graph the pair is unordered.
\<close>

definition me_key :: "bool \<Rightarrow> nat \<Rightarrow> nat \<Rightarrow> nat \<times> nat" where
  "me_key directed r s = (if directed \<or> r \<le> s then (r, s) else (s, r))"

definition get_me :: "block_state \<Rightarrow> nat \<Rightarrow> nat \<Rightarrow> int option" where
  "get_me st r s = map_of (mrs st) (me_key (is_directed (g st)) r s)"

definition get_beprop :: "block_state \<Rightarrow> nat \<Rightarrow> nat \<Rightarrow> int" where
  "get_beprop st r s = (case get_me st r s of None \<Rightarrow> 0 | Some m \<Rightarrow> m)"

text \<open>
  Modelled from the spec: the move-entries delta set (spec section 4.2), also of
  graph\_blockmodel\_util.hh. It holds one signed delta per affected block pair.
\<close>

definition insert_delta :: "bool \<Rightarrow> nat \<Rightarrow> nat \<Rightarrow> int \<Rightarrow> entries \<Rightarrow> entries" where
  "insert_delta directed t s d es =
     (let k = me_key directed t s
      in case map_of es k of
           None \<Rightarrow> es @ [(k, d)]
         | Some d0 \<Rightarrow> AList.update k (d0 + d) es)"

definition get_delta :: "bool \<Rightarrow> entries \<Rightarrow> nat \<Rightarrow> nat \<Rightarrow> int" where
  "get_delta directed es t s =
     (case map_of es (me_key directed t s) of None \<Rightarrow> 0 | Some d \<Rightarrow> d)"

text \<open>
  Modelled from the spec: \<^verbatim>\<open>move_entries\<close> (spec section 4.2) computes, for the move of
  \<open>v\<close> from block \<open>r\<close> to block \<open>nr\<close> (either may be \<open>null_group\<close>), the block pairs
  whose aggregate edge weight would change and the signed deltas, skipping the edges
  the filter excludes, and mutating nothing. Every incident edge leaves the pair it is
  counted under while \<open>v\<close> is in \<open>r\<close> and enters the pair it is counted under once
  \<open>v\<close> is in \<open>nr\<close>; an undirected self-loop, listed twice among the out-edges, is
  counted once.
\<close>

definition move_entries_out ::
  "nat \<Rightarrow> nat \<Rightarrow> nat \<Rightarrow> (nat \<Rightarrow> nat) \<Rightarrow> bool \<Rightarrow> (edge \<Rightarrow> int) \<Rightarrow> (edge \<Rightarrow> bool) \<Rightarrow>
   entries \<times> int \<Rightarrow> edge \<Rightarrow> entries \<times> int" where
  "move_entries_out v r nr bv directed ew efilt acc e =
     (if efilt e then acc
      else
        let es = fst acc;
            u = target e;
            s = bv u;
            w = ew e;
            es1 = (if r \<noteq> null_group then insert_delta directed r s (- w) es else es);
            es2 = (if nr \<noteq> null_group
                   then insert_delta directed nr (if u = v then nr else s) w es1
                   else es1)
        in (es2, if u = v \<and> \<not> directed then snd acc + w else snd acc))"

definition move_entries_in ::
  "nat \<Rightarrow> nat \<Rightarrow> nat \<Rightarrow> (nat \<Rightarrow> nat) \<Rightarrow> bool \<Rightarrow> (edge \<Rightarrow> int) \<Rightarrow> (edge \<Rightarrow> bool) \<Rightarrow>
   entries \<Rightarrow> edge \<Rightarrow> entries" where
  "move_entries_in v r nr bv directed ew efilt es e =
     (if efilt e \<or> source e = v then es
      else
        let s = bv (source e);
            w = ew e;
            es1 = (if r \<noteq> null_group then insert_delta directed s r (- w) es else es)
        in (if nr \<noteq> null_group then insert_delta directed s nr w es1 else es1))"

definition move_entries ::
  "nat \<Rightarrow> nat \<Rightarrow> nat \<Rightarrow> (nat \<Rightarrow> nat) \<Rightarrow> graph \<Rightarrow> (edge \<Rightarrow> int) \<Rightarrow> (edge \<Rightarrow> bool) \<Rightarrow> entries" where
  "move_entries v r nr bv gr ew efilt =
     (let directed = is_directed gr;
          acc = foldl (move_entries_out v r nr bv directed ew efilt) ([], 0)
                      (out_edges_range gr v);
          es = fst acc;
          half = snd acc div 2;
          es1 = (if half \<noteq> 0 \<and> r \<noteq> null_group then insert_delta directed r r half es else es);
          es2 = (if half \<noteq> 0 \<and> nr \<noteq> null_group
                 then insert_delta directed nr nr (- half) es1 else es1)
      in foldl (move_entries_in v r nr bv directed ew efilt) es2 (in_edges_range gr v))"

text \<open>
  \<^verbatim>\<open>get_move_entries\<close>: with \<^verbatim>\<open>_rec_types\<close> empty the \<^verbatim>\<open>switch\<close> takes its default branch
  and the entries carry no covariates. The entries are written to the given entry set,
  here the scratch member \<^verbatim>\<open>_m_entries\<close>.
\<close>

definition get_move_entries ::
  "nat \<Rightarrow> nat \<Rightarrow> nat \<Rightarrow> (edge \<Rightarrow> bool) \<Rightarrow> block_state \<Rightarrow> block_state" where
  "get_move_entries v r nr efilt st =
     st\<lparr>m_entries := move_entries v r nr (b st) (g st) (eweight st) efilt\<rparr>"

subsection \<open>State modification\<close>

text \<open>
  Modelled from the spec: the two block pools are index-swap-removable lists (spec
  section 3); \<^verbatim>\<open>add_element\<close> and \<^verbatim>\<open>remove_element\<close> are helpers of
  graph\_blockmodel\_util.hh. Adding appends and records the position; removing
  overwrites the element with the last one, records the last one's new position and
  drops the last slot.
\<close>

definition add_element :: "nat list \<times> (nat \<Rightarrow> nat) \<Rightarrow> nat \<Rightarrow> nat list \<times> (nat \<Rightarrow> nat)" where
  "add_element vp r = (fst vp @ [r], (snd vp)(r := length (fst vp)))"

definition remove_element :: "nat list \<times> (nat \<Rightarrow> nat) \<Rightarrow> nat \<Rightarrow> nat list \<times> (nat \<Rightarrow> nat)" where
  "remove_element vp r =
     (let vec = fst vp; pos = snd vp;
          back = last vec;
          i = pos r
      in (butlast (vec[i := back]), pos(back := i)))"

definition remove_partition_node :: "nat \<Rightarrow> nat \<Rightarrow> block_state \<Rightarrow> block_state" where
  "remove_partition_node v r st =
     (let st1 = st\<lparr>wr := (wr st)(r := wr st r - vweight st v)\<rparr>
      in if vweight st1 v > 0 \<and> wr st1 r = 0
         then
           let c = remove_element (candidate_blocks st1, candidate_pos st1) r;
               e = add_element (empty_blocks st1, empty_pos st1) r
           in st1\<lparr>candidate_blocks := fst c, candidate_pos := snd c,
                  empty_blocks := fst e, empty_pos := snd e\<rparr>
         else st1)"

definition add_partition_node :: "nat \<Rightarrow> nat \<Rightarrow> block_state \<Rightarrow> block_state" where
  "add_partition_node v r st =
     (let st1 = st\<lparr>wr := (wr st)(r := wr st r + vweight st v)\<rparr>
      in if vweight st1 v > 0 \<and> wr st1 r = vweight st1 v
         then
           let e = remove_element (empty_blocks st1, empty_pos st1) r;
               c = add_element (candidate_blocks st1, candidate_pos st1) r
           in st1\<lparr>empty_blocks := fst e, empty_pos := snd e,
                  candidate_blocks := fst c, candidate_pos := snd c\<rparr>
         else st1)"

text \<open>
  The body of the lambda that \<^verbatim>\<open>modify_vertex\<close> hands to \<^verbatim>\<open>entries_op\<close>, for one entry
  \<open>(r, s)\<close> with delta \<open>d\<close>. On removal the source writes through the edge descriptor
  without testing it against the null edge; that write is undefined when the pair has
  no edge.
\<close>

definition modify_entry :: "bool \<Rightarrow> (nat \<times> nat) \<times> int \<Rightarrow> block_state \<Rightarrow> error option \<times> block_state" where
  "modify_entry Add rsd st =
     (let r = fst (fst rsd); s = snd (fst rsd); d = snd rsd;
          k = me_key (is_directed (g st)) r s
      in if d = 0 then (None, st)
         else if \<not> Add \<and> get_me st r s = None
         then (Some (UndefinedBehaviour ''write through the null edge''), st)
         else
           let st1 = (if Add \<and> get_me st r s = None then st\<lparr>mrs := mrs st @ [(k, 0)]\<rparr> else st);
               m = get_beprop st1 r s + d;
               st2 = st1\<lparr>mrs := AList.update k m (mrs st1)\<rparr>;
               st3 = st2\<lparr>mrp := (mrp st2)(r := mrp st2 r + d)\<rparr>;
               st4 = st3\<lparr>mrm := (mrm st3)(s := mrm st3 s + d)\<rparr>
           in (None, if \<not> Add \<and> m = 0 then st4\<lparr>mrs := AList.delete k (mrs st4)\<rparr> else st4))"

text \<open>
  A \<^verbatim>\<open>for\<close> loop over a container whose body may throw: the loop stops at the first
  exception, which leaves the state as the body left it.
\<close>

fun for_each :: "('a \<Rightarrow> 's \<Rightarrow> error option \<times> 's) \<Rightarrow> 'a list \<Rightarrow> 's \<Rightarrow> error option \<times> 's" where
  "for_each f [] st = (None, st)"
| "for_each f (x # xs) st =
     (case f x st of
        (Some err, st') \<Rightarrow> (Some err, st')
      | (None, st') \<Rightarrow> for_each f xs st')"

text \<open>
  Modelled from the spec: \<^verbatim>\<open>entries_op\<close> (graph\_blockmodel\_util.hh) hands every entry of
  the delta set, with its block-graph edge, to the operation, in turn.
\<close>

definition entries_op ::
  "((nat \<times> nat) \<times> int \<Rightarrow> block_state \<Rightarrow> error option \<times> block_state) \<Rightarrow>
   entries \<Rightarrow> block_state \<Rightarrow> error option \<times> block_state" where
  "entries_op f es st = for_each f es st"

definition modify_vertex ::
  "bool \<Rightarrow> nat \<Rightarrow> nat \<Rightarrow> (edge \<Rightarrow> bool) \<Rightarrow> block_state \<Rightarrow> error option \<times> block_state" where
  "modify_vertex Add v r efilt st =
     (let st0 = (if Add then get_move_entries v null_group r efilt st
                 else get_move_entries v r null_group efilt st)
      in case entries_op (modify_entry Add) (m_entries st0) st0 of
           (Some err, st1) \<Rightarrow> (Some err, st1)
         | (None, st1) \<Rightarrow>
             if Add then (None, add_partition_node v r (st1\<lparr>b := (b st1)(v := r)\<rparr>))
             else (None, remove_partition_node v r st1))"

definition no_filter :: "edge \<Rightarrow> bool" where
  "no_filter e = False"

definition remove_vertex :: "nat \<Rightarrow> nat \<Rightarrow> block_state \<Rightarrow> error option \<times> block_state" where
  "remove_vertex v r st = modify_vertex False v r no_filter st"

definition add_vertex :: "nat \<Rightarrow> nat \<Rightarrow> block_state \<Rightarrow> error option \<times> block_state" where
  "add_vertex v r st = modify_vertex True v r no_filter st"

definition allow_move :: "block_state \<Rightarrow> nat \<Rightarrow> nat \<Rightarrow> bool \<Rightarrow> bool" where
  "allow_move st r nr allow_empty =
     (if allow_empty then bclabel st r = bclabel st nr \<or> wr st nr = 0
      else bclabel st r = bclabel st nr)"

definition set_vertex_weight :: "nat \<Rightarrow> int \<Rightarrow> block_state \<Rightarrow> error option \<times> block_state" where
  "set_vertex_weight v w st =
     (if is_weighted st then (None, st\<lparr>vweight_map := (vweight_map st)(v := w)\<rparr>)
      else (Some (ValueException ''Cannot set the weight of an unweighted state''), st))"

text \<open>
  The two propagation steps at the end of \<^verbatim>\<open>move_vertex\<close>, on the coupled state \<open>cs\<close>:
  block \<open>r\<close> leaves its block \<open>l\<close> of the parent level, and block \<open>nr\<close> enters it.
\<close>

definition coupled_vacate :: "nat \<Rightarrow> nat \<Rightarrow> block_state \<Rightarrow> error option \<times> block_state" where
  "coupled_vacate r l cs = set_vertex_weight r 0 (remove_partition_node r l cs)"

definition coupled_occupy :: "nat \<Rightarrow> nat \<Rightarrow> block_state \<Rightarrow> error option \<times> block_state" where
  "coupled_occupy nr l cs =
     (case set_vertex_weight nr 1 cs of
        (Some err, cs1) \<Rightarrow> (Some err, cs1)
      | (None, cs1) \<Rightarrow>
          (let cs2 = add_partition_node nr l cs1
           in (None, cs2\<lparr>b := (b cs2)(nr := l)\<rparr>)))"

text \<open>
  The block \<^verbatim>\<open>if (_coupled_state != nullptr && _vweight[v] > 0)\<close> of \<^verbatim>\<open>move_vertex\<close>, run on
  the level \<open>st\<close> once \<open>v\<close> has been removed from \<open>r\<close> and added to \<open>nr\<close>, and on the
  coupled level \<open>cs\<close>. It returns both levels.
\<close>

definition propagate_coupled ::
  "nat \<Rightarrow> nat \<Rightarrow> nat \<Rightarrow> block_state \<Rightarrow> block_state \<Rightarrow> error option \<times> block_state \<times> block_state" where
  "propagate_coupled v r nr st cs =
     (if \<not> vweight st v > 0 then (None, st, cs)
      else
        (case (if wr st r = 0 then coupled_vacate r (bclabel st r) cs else (None, cs)) of
           (Some err, cs1) \<Rightarrow> (Some err, st, cs1)
         | (None, cs1) \<Rightarrow>
             (if wr st nr = vweight st v
              then (case coupled_occupy nr (bclabel st r) cs1 of
                      (Some err, cs2) \<Rightarrow> (Some err, st, cs2)
                    | (None, cs2) \<Rightarrow>
                        (None, st\<lparr>bclabel := (bclabel st)(nr := bclabel st r)\<rparr>, cs2))
              else (None, st, cs1))))"

definition move_vertex :: "nat \<Rightarrow> nat \<Rightarrow> nat \<Rightarrow> BlockState \<Rightarrow> error option \<times> BlockState" where
  "move_vertex v r nr S =
     (let st = level S; up = coupled_state S
      in if r = nr then (None, S)
         else if \<not> allow_move st r nr True
         then (Some (ValueException ''cannot move vertex across clabel barriers''), S)
         else
           (case remove_vertex v r st of
              (Some err, st1) \<Rightarrow> (Some err, BlockState st1 up)
            | (None, st1) \<Rightarrow>
               (case add_vertex v nr st1 of
                  (Some err, st2) \<Rightarrow> (Some err, BlockState st2 up)
                | (None, st2) \<Rightarrow>
                   (case up of
                      None \<Rightarrow> (None, BlockState st2 None)
                    | Some P \<Rightarrow>
                       (case propagate_coupled v r nr st2 (level P) of
                          (err, st3, cs3) \<Rightarrow>
                            (err, BlockState st3 (Some (BlockState cs3 (coupled_state P)))))))))"

text \<open>\<^verbatim>\<open>move_vertex(size_t v, size_t nr)\<close>: the overload that reads the current block.\<close>

definition move_vertex2 :: "nat \<Rightarrow> nat \<Rightarrow> BlockState \<Rightarrow> error option \<times> BlockState" where
  "move_vertex2 v nr S = move_vertex v (b (level S) v) nr S"

subsection \<open>Bulk operations\<close>

text \<open>
  The set \<^verbatim>\<open>eset\<close> of the edges that join two vertices of the batch. The hash containers
  of the source are lists in insertion order here (their iteration order is
  unspecified); two descriptors of the same edge are the same element.
\<close>

definition insert_edge :: "edge \<Rightarrow> edge list \<Rightarrow> edge list" where
  "insert_edge e eset = (if edge_index e \<in> set (map edge_index eset) then eset else eset @ [e])"

definition batch_edges :: "graph \<Rightarrow> (nat \<Rightarrow> bool) \<Rightarrow> nat list \<Rightarrow> edge list" where
  "batch_edges gr inset vs =
     foldl (\<lambda>eset v.
              foldl (\<lambda>eset e.
                       let u = (if source e = v then target e else source e)
                       in if inset u then insert_edge e eset else eset)
                    eset (all_edges_range gr v))
           [] vs"

definition in_eset :: "edge list \<Rightarrow> edge \<Rightarrow> bool" where
  "in_eset eset e = (edge_index e \<in> set (map edge_index eset))"

text \<open>\<^verbatim>\<open>vset[v]\<close> on the hash map: a missing key reads as the default value.\<close>

definition vset_at :: "(nat \<times> nat) list \<Rightarrow> nat \<Rightarrow> nat" where
  "vset_at vset v = (case map_of vset v of None \<Rightarrow> 0 | Some r \<Rightarrow> r)"

definition add_batch_edge :: "(nat \<times> nat) list \<Rightarrow> edge \<Rightarrow> block_state \<Rightarrow> error option \<times> block_state" where
  "add_batch_edge vset e st =
     (let r = vset_at vset (source e); s = vset_at vset (target e);
          k = me_key (is_directed (g st)) r s;
          st1 = (if get_me st r s = None then st\<lparr>mrs := mrs st @ [(k, 0)]\<rparr> else st);
          ew = eweight st1 e;
          st2 = st1\<lparr>mrs := AList.update k (get_beprop st1 r s + ew) (mrs st1)\<rparr>;
          st3 = st2\<lparr>mrp := (mrp st2)(r := mrp st2 r + ew)\<rparr>
      in (None, st3\<lparr>mrm := (mrm st3)(s := mrm st3 s + ew)\<rparr>))"

definition add_vertices :: "nat list \<Rightarrow> nat list \<Rightarrow> block_state \<Rightarrow> error option \<times> block_state" where
  "add_vertices vs rs st =
     (if length vs \<noteq> length rs
      then (Some (ValueException ''vertex and group lists do not have the same size''), st)
      else
        let vset = foldl (\<lambda>m vr. AList.update (fst vr) (snd vr) m) [] (zip vs rs);
            eset = batch_edges (g st) (\<lambda>u. map_of vset u \<noteq> None) (map fst vset)
        in case for_each (\<lambda>vr. modify_vertex True (fst vr) (snd vr) (in_eset eset)) vset st of
             (Some err, st1) \<Rightarrow> (Some err, st1)
           | (None, st1) \<Rightarrow> for_each (add_batch_edge vset) eset st1)"

definition remove_batch_edge :: "edge \<Rightarrow> block_state \<Rightarrow> error option \<times> block_state" where
  "remove_batch_edge e st =
     (let r = b st (source e); s = b st (target e);
          k = me_key (is_directed (g st)) r s
      in if get_me st r s = None
         then (Some (UndefinedBehaviour ''write through the null edge''), st)
         else
           let ew = eweight st e;
               m = get_beprop st r s - ew;
               st1 = st\<lparr>mrs := AList.update k m (mrs st)\<rparr>;
               st2 = st1\<lparr>mrp := (mrp st1)(r := mrp st1 r - ew)\<rparr>;
               st3 = st2\<lparr>mrm := (mrm st2)(s := mrm st2 s - ew)\<rparr>
           in (None, if m = 0 then st3\<lparr>mrs := AList.delete k (mrs st3)\<rparr> else st3))"

definition remove_vertices :: "nat list \<Rightarrow> block_state \<Rightarrow> error option \<times> block_state" where
  "remove_vertices vs st =
     (let vset = remdups vs;
          eset = batch_edges (g st) (\<lambda>u. u \<in> set vset) vset
      in case for_each (\<lambda>v st'. modify_vertex False v (b st' v) (in_eset eset) st') vset st of
           (Some err, st1) \<Rightarrow> (Some err, st1)
         | (None, st1) \<Rightarrow> for_each remove_batch_edge eset st1)"

text \<open>
  \<^verbatim>\<open>move_vertices(Vec& v, Vec& nr)\<close> runs over the first \<^verbatim>\<open>std::min(v.size(), nr.size())\<close>
  positions, which are the pairs of \<open>zip\<close>; \<^verbatim>\<open>move_vertices(python::object, python::object)\<close>
  compares the sizes first.
\<close>

definition move_vertices :: "nat list \<Rightarrow> nat list \<Rightarrow> BlockState \<Rightarrow> error option \<times> BlockState" where
  "move_vertices v nr S = for_each (\<lambda>p. move_vertex2 (fst p) (snd p)) (zip v nr) S"

definition move_vertices_py :: "nat list \<Rightarrow> nat list \<Rightarrow> BlockState \<Rightarrow> error option \<times> BlockState" where
  "move_vertices_py vs rs S =
     (if length vs \<noteq> length rs
      then (Some (ValueException ''vertex and group lists do not have the same size''), S)
      else move_vertices vs rs S)"

text \<open>
  The constructor's pool initialisation: both pools are cleared, the sentinel goes first
  into \<^verbatim>\<open>_candidate_blocks\<close>, then every block goes to one of the pools.
\<close>

definition init_pools :: "block_state \<Rightarrow> block_state" where
  "init_pools st =
     foldl (\<lambda>st' r.
              if wr st' r = 0
              then (let e = add_element (empty_blocks st', empty_pos st') r
                    in st'\<lparr>empty_blocks := fst e, empty_pos := snd e\<rparr>)
              else (let c = add_element (candidate_blocks st', candidate_pos st') r
                    in st'\<lparr>candidate_blocks := fst c, candidate_pos := snd c\<rparr>))
           (st\<lparr>empty_blocks := [], candidate_blocks := [null_group]\<rparr>)
           [0 ..< bg_num_vertices st]"

section \<open>Virtual moves and move proposals\<close>

subsection \<open>Values of type double\<close>

text \<open>
  A \<^verbatim>\<open>double\<close> is a real number or one of the three special values; rounding is not
  modelled. The operations follow IEEE 754 on the special values (signed zeros are not
  distinguished).
\<close>

datatype double = Finite real | PosInf | NegInf | NaN

fun dadd :: "double \<Rightarrow> double \<Rightarrow> double" where
  "dadd (Finite x) (Finite y) = Finite (x + y)"
| "dadd NaN y = NaN"
| "dadd x NaN = NaN"
| "dadd PosInf NegInf = NaN"
| "dadd NegInf PosInf = NaN"
| "dadd PosInf y = PosInf"
| "dadd x PosInf = PosInf"
| "dadd NegInf y = NegInf"
| "dadd x NegInf = NegInf"

fun dneg :: "double \<Rightarrow> double" where
  "dneg (Finite x) = Finite (- x)"
| "dneg PosInf = NegInf"
| "dneg NegInf = PosInf"
| "dneg NaN = NaN"

definition dsub :: "double \<Rightarrow> double \<Rightarrow> double" where
  "dsub x y = dadd x (dneg y)"

text \<open>The quotient of two finite values.\<close>

definition ddiv :: "real \<Rightarrow> real \<Rightarrow> double" where
  "ddiv x y =
     (if y \<noteq> 0 then Finite (x / y)
      else if 0 < x then PosInf else if x < 0 then NegInf else NaN)"

text \<open>A finite non-negative factor times a double, and a double over a positive count.\<close>

fun dscale :: "real \<Rightarrow> double \<Rightarrow> double" where
  "dscale a (Finite x) = Finite (a * x)"
| "dscale a NaN = NaN"
| "dscale a PosInf = (if 0 < a then PosInf else if a < 0 then NegInf else NaN)"
| "dscale a NegInf = (if 0 < a then NegInf else if a < 0 then PosInf else NaN)"

definition ddiv_count :: "double \<Rightarrow> real \<Rightarrow> double" where
  "ddiv_count p w = dscale (1 / w) p"

text \<open>
  The comparisons \<^verbatim>\<open><\<close> and \<^verbatim>\<open>>=\<close> of two doubles: a comparison with a NaN operand is
  false.
\<close>

fun dless :: "double \<Rightarrow> double \<Rightarrow> bool" where
  "dless (Finite x) (Finite y) = (x < y)"
| "dless NaN y = False"
| "dless x NaN = False"
| "dless x NegInf = False"
| "dless PosInf y = False"
| "dless NegInf y = True"
| "dless x PosInf = True"

fun dge :: "double \<Rightarrow> double \<Rightarrow> bool" where
  "dge (Finite x) (Finite y) = (y \<le> x)"
| "dge NaN y = False"
| "dge x NaN = False"
| "dge x NegInf = True"
| "dge PosInf y = True"
| "dge NegInf y = False"
| "dge x PosInf = False"

text \<open>The product and the quotient of two doubles, and \<^verbatim>\<open>exp\<close>.\<close>

fun dmul :: "double \<Rightarrow> double \<Rightarrow> double" where
  "dmul (Finite x) y = dscale x y"
| "dmul x (Finite y) = dscale y x"
| "dmul NaN y = NaN"
| "dmul x NaN = NaN"
| "dmul PosInf PosInf = PosInf"
| "dmul NegInf NegInf = PosInf"
| "dmul PosInf NegInf = NegInf"
| "dmul NegInf PosInf = NegInf"

fun ddivd :: "double \<Rightarrow> double \<Rightarrow> double" where
  "ddivd (Finite x) (Finite y) = ddiv x y"
| "ddivd NaN y = NaN"
| "ddivd x NaN = NaN"
| "ddivd (Finite x) y = Finite 0"
| "ddivd PosInf (Finite y) = (if y < 0 then NegInf else PosInf)"
| "ddivd NegInf (Finite y) = (if y < 0 then PosInf else NegInf)"
| "ddivd x y = NaN"

fun dexp :: "double \<Rightarrow> double" where
  "dexp (Finite x) = Finite (exp x)"
| "dexp PosInf = PosInf"
| "dexp NegInf = Finite 0"
| "dexp NaN = NaN"

text \<open>A double that is a number.\<close>

fun is_finite :: "double \<Rightarrow> bool" where
  "is_finite (Finite x) = True"
| "is_finite x = False"

text \<open>Conversion of an \<^verbatim>\<open>int\<close> to \<^verbatim>\<open>size_t\<close>.\<close>

definition size_t_of :: "int \<Rightarrow> int" where
  "size_t_of x = x mod 2 ^ 64"

subsection \<open>The entropy terms\<close>

text \<open>
  The term functions of graph\_blockmodel\_util.hh and of the partition statistics are
  not among the sources; a virtual move only adds up their values. They are parameters
  of the model: \<open>entries_dS exact st\<close> reads the entry set and the counts of \<open>st\<close>;
  \<open>vterm\<close>, \<open>vterm_exact\<close> and \<open>eterm_dense\<close> take their numeric arguments and the
  directedness of the block graph; the three description-length deltas take the state
  and the move; \<open>recs_dS\<close> is the value that the covariate block
  (\<^verbatim>\<open>if (ea.recs) { ... }\<close>) adds.
\<close>

record entropy_terms =
  entries_dS :: "bool \<Rightarrow> block_state \<Rightarrow> double"
  vterm :: "int \<Rightarrow> int \<Rightarrow> int \<Rightarrow> bool \<Rightarrow> bool \<Rightarrow> double"
  vterm_exact :: "int \<Rightarrow> int \<Rightarrow> int \<Rightarrow> bool \<Rightarrow> bool \<Rightarrow> double"
  eterm_dense :: "nat \<Rightarrow> nat \<Rightarrow> int \<Rightarrow> int \<Rightarrow> int \<Rightarrow> bool \<Rightarrow> bool \<Rightarrow> double"
  delta_partition_dl :: "block_state \<Rightarrow> nat \<Rightarrow> nat \<Rightarrow> nat \<Rightarrow> double"
  delta_deg_dl :: "block_state \<Rightarrow> nat \<Rightarrow> nat \<Rightarrow> nat \<Rightarrow> int \<Rightarrow> double"
  delta_edges_dl :: "block_state \<Rightarrow> nat \<Rightarrow> nat \<Rightarrow> nat \<Rightarrow> double"
  recs_dS :: "block_state \<Rightarrow> nat \<Rightarrow> nat \<Rightarrow> nat \<Rightarrow> double"

text \<open>
  Modelled from the spec: the weighted degree queries come from the graph collaborator
  (spec section 6).
\<close>

definition out_degreeS :: "block_state \<Rightarrow> nat \<Rightarrow> int" where
  "out_degreeS st v = sum_list (map (eweight st) (out_edges_range (g st) v))"

definition in_degreeS :: "block_state \<Rightarrow> nat \<Rightarrow> int" where
  "in_degreeS st v = sum_list (map (eweight st) (in_edges_range (g st) v))"

subsection \<open>Sparse and dense evaluation\<close>

definition virtual_move_sparse ::
  "entropy_terms \<Rightarrow> bool \<Rightarrow> nat \<Rightarrow> nat \<Rightarrow> nat \<Rightarrow> block_state \<Rightarrow> double" where
  "virtual_move_sparse T ex v r nr st =
     (if r = nr then Finite 0
      else
        let dS0 = entries_dS T ex st;
            kout = size_t_of (out_degreeS st v);
            kin = (if is_directed (g st) then size_t_of (in_degreeS st v) else kout);
            dwr = vweight st v;
            dwnr = (if r = null_group \<and> dwr = 0 then 1 else dwr);
            vt = (\<lambda>p m n. if ex then vterm_exact T p m n (deg_corr st) (is_directed (g st))
                           else vterm T p m n (deg_corr st) (is_directed (g st)));
            dS1 = (if r \<noteq> null_group
                   then dsub (dadd dS0 (vt (size_t_of (mrp st r - kout)) (size_t_of (mrm st r - kin))
                                           (wr st r - dwr)))
                             (vt (mrp st r) (mrm st r) (wr st r))
                   else dS0)
        in (if nr \<noteq> null_group
            then dsub (dadd dS1 (vt (size_t_of (mrp st nr + kout)) (size_t_of (mrm st nr + kin))
                                    (wr st nr + dwnr)))
                      (vt (mrp st nr) (mrm st nr) (wr st nr))
            else dS1))"

definition acc2 :: "double \<times> double \<Rightarrow> double \<Rightarrow> double \<Rightarrow> double \<times> double" where
  "acc2 SiSf i f = (dadd (fst SiSf) i, dadd (snd SiSf) f)"

text \<open>
  One round of the loop over the blocks \<open>s\<close> in \<^verbatim>\<open>virtual_move_dense\<close>; \<open>ed\<close> is
  \<^verbatim>\<open>eterm_dense\<close> with the flags supplied, \<open>SiSf\<close> the pair of running sums.
\<close>

definition dense_step ::
  "(nat \<Rightarrow> nat \<Rightarrow> int \<Rightarrow> int \<Rightarrow> int \<Rightarrow> double) \<Rightarrow> block_state \<Rightarrow> nat \<Rightarrow> nat \<Rightarrow>
   (nat \<Rightarrow> int) \<Rightarrow> (nat \<Rightarrow> int) \<Rightarrow> int \<Rightarrow> int \<Rightarrow> int \<Rightarrow> double \<times> double \<Rightarrow> nat \<Rightarrow> double \<times> double" where
  "dense_step ed st r nr deltap deltam deltal dwr dwnr SiSf s =
     (let ers = (if r \<noteq> null_group then get_beprop st r s else 0);
          enrs = (if nr \<noteq> null_group then get_beprop st nr s else 0);
          w = wr st
      in if \<not> is_directed (g st)
         then
           let a1 = (if s \<noteq> nr \<and> s \<noteq> r
                     then
                       let x = (if r \<noteq> null_group
                                then acc2 SiSf (ed r s ers (w r) (w s))
                                               (ed r s (ers - deltap s) (w r - dwr) (w s))
                                else SiSf)
                       in (if nr \<noteq> null_group
                           then acc2 x (ed nr s enrs (w nr) (w s))
                                       (ed nr s (enrs + deltap s) (w nr + dwnr) (w s))
                           else x)
                     else SiSf);
               a2 = (if s = r
                     then acc2 a1 (ed r r ers (w r) (w r))
                                  (ed r r (ers - deltap r - deltal) (w r - dwr) (w r - dwr))
                     else a1)
           in (if s = nr
               then
                 let y = acc2 a2 (ed nr nr enrs (w nr) (w nr))
                                 (ed nr nr (enrs + deltap nr + deltal) (w nr + dwnr) (w nr + dwnr))
                 in (if r \<noteq> null_group
                     then acc2 y (ed r nr ers (w r) (w nr))
                                 (ed r nr (ers - deltap nr + deltap r) (w r - dwr) (w nr + dwnr))
                     else y)
               else a2)
         else
           let esr = (if r \<noteq> null_group then get_beprop st s r else 0);
               esnr = (if nr \<noteq> null_group then get_beprop st s nr else 0);
               a1 = (if s \<noteq> nr \<and> s \<noteq> r
                     then
                       let x = (if r \<noteq> null_group
                                then acc2 (acc2 SiSf (ed r s ers (w r) (w s))
                                                     (ed r s (ers - deltap s) (w r - dwr) (w s)))
                                          (ed s r esr (w s) (w r))
                                          (ed s r (esr - deltam s) (w s) (w r - dwr))
                                else SiSf)
                       in (if nr \<noteq> null_group
                           then acc2 (acc2 x (ed nr s enrs (w nr) (w s))
                                             (ed nr s (enrs + deltap s) (w nr + dwnr) (w s)))
                                     (ed s nr esnr (w s) (w nr))
                                     (ed s nr (esnr + deltam s) (w s) (w nr + dwnr))
                           else x)
                     else SiSf);
               a2 = (if s = r
                     then
                       let y = acc2 a1 (ed r r ers (w r) (w r))
                                       (ed r r (ers - deltap r - deltam r - deltal)
                                               (w r - dwr) (w r - dwr))
                       in (if nr \<noteq> null_group
                           then acc2 y (ed r nr esnr (w r) (w nr))
                                       (ed r nr (esnr - deltap nr + deltam r) (w r - dwr) (w nr + dwnr))
                           else y)
                     else a1)
           in (if s = nr
               then
                 let z = acc2 a2 (ed nr nr esnr (w nr) (w nr))
                                 (ed nr nr (esnr + deltap nr + deltam nr + deltal)
                                           (w nr + dwnr) (w nr + dwnr))
                 in (if r \<noteq> null_group
                     then acc2 z (ed nr r esr (w nr) (w r))
                                 (ed nr r (esr + deltap r - deltam nr) (w nr + dwnr) (w r - dwr))
                     else z)
               else a2))"

definition virtual_move_dense ::
  "entropy_terms \<Rightarrow> nat \<Rightarrow> nat \<Rightarrow> nat \<Rightarrow> bool \<Rightarrow> block_state \<Rightarrow> error + double" where
  "virtual_move_dense T v r nr mg st =
     (if deg_corr st
      then Inl (GraphException ''Dense entropy for degree corrected model not implemented!'')
      else if r = nr then Inr (Finite 0)
      else
        let outs = out_edges_range (g st) v;
            ins = in_edges_range (g st) v;
            deltal0 = sum_list (map (eweight st) (filter (\<lambda>e. target e = v) outs));
            deltap0 = (\<lambda>s. sum_list (map (eweight st)
                          (filter (\<lambda>e. target e \<noteq> v \<and> b st (target e) = s) outs)));
            deltal1 = (if \<not> is_directed (g st) then deltal0 sdiv 2 else deltal0);
            deltam0 = (\<lambda>s. sum_list (map (eweight st)
                          (filter (\<lambda>e. source e \<noteq> v \<and> b st (source e) = s) ins)));
            dwr = vweight st v;
            dwnr = (if r = null_group \<and> dwr = 0 then 1 else dwr);
            deltap = (if nr = null_group then (\<lambda>s. 0) else deltap0);
            deltam = (if nr = null_group then (\<lambda>s. 0) else deltam0);
            deltal = (if nr = null_group then 0 else deltal1);
            ed = (\<lambda>x y e wx wy. eterm_dense T x y e wx wy mg (is_directed (g st)));
            SiSf = foldl (dense_step ed st r nr deltap deltam deltal dwr dwnr)
                         (Finite 0, Finite 0) [0 ..< bg_num_vertices st]
        in Inr (dadd (dsub (snd SiSf) (fst SiSf)) (Finite 0)))"

definition dense_entropy :: "entropy_terms \<Rightarrow> bool \<Rightarrow> block_state \<Rightarrow> error + double" where
  "dense_entropy T mg st =
     (if deg_corr st
      then Inl (GraphException ''Dense entropy for degree corrected model not implemented!'')
      else Inr (foldl (\<lambda>S e. dadd S (eterm_dense T (fst (fst e)) (snd (fst e)) (snd e)
                                        (wr st (fst (fst e))) (wr st (snd (fst e))) mg
                                        (is_directed (g st))))
                      (Finite 0) (mrs st)))"

subsection \<open>The virtual move\<close>

definition enable_partition_stats :: "block_state \<Rightarrow> block_state" where
  "enable_partition_stats st = st\<lparr>partition_stats_enabled := True\<rparr>"

text \<open>
  The part of \<^verbatim>\<open>virtual_move\<close> between the two early returns and the coupled state: the
  entries are computed into the scratch member, then the adjacency term, the
  description-length terms and the covariate term are added up.
\<close>

definition virtual_move_level ::
  "entropy_terms \<Rightarrow> nat \<Rightarrow> nat \<Rightarrow> nat \<Rightarrow> entropy_args_t \<Rightarrow> block_state \<Rightarrow>
   (error + double) \<times> block_state" where
  "virtual_move_level T v r nr ea st =
     (let st1 = get_move_entries v r nr no_filter st;
          adj = (if adjacency ea
                 then (if dense ea then virtual_move_dense T v r nr (multigraph ea) st1
                       else Inr (virtual_move_sparse T (exact ea) v r nr st1))
                 else Inr (Finite 0))
      in case adj of
           Inl err \<Rightarrow> (Inl err, st1)
         | Inr dS0 \<Rightarrow>
             let st2 = (if partition_dl ea \<or> degree_dl ea \<or> edges_dl ea
                        then enable_partition_stats st1 else st1);
                 dS1 = (if (partition_dl ea \<or> degree_dl ea \<or> edges_dl ea) \<and> partition_dl ea
                        then dadd dS0 (delta_partition_dl T st2 v r nr) else dS0);
                 dS2 = (if (partition_dl ea \<or> degree_dl ea \<or> edges_dl ea) \<and> deg_corr st2 \<and> degree_dl ea
                        then dadd dS1 (delta_deg_dl T st2 v r nr (degree_dl_kind ea)) else dS1);
                 dS3 = (if (partition_dl ea \<or> degree_dl ea \<or> edges_dl ea) \<and> edges_dl ea
                        then dadd dS2 (delta_edges_dl T st2 v r nr) else dS2);
                 dS4 = (if recs ea then dadd dS3 (recs_dS T st2 v r nr) else dS3)
             in (Inr dS4, st2))"

function virtual_move ::
  "entropy_terms \<Rightarrow> nat \<Rightarrow> nat \<Rightarrow> nat \<Rightarrow> entropy_args_t \<Rightarrow> BlockState \<Rightarrow>
   (error + double) \<times> BlockState" where
  "virtual_move T v r nr ea (BlockState st up) =
     (if r = nr then (Inr (Finite 0), BlockState st up)
      else if r \<noteq> null_group \<and> nr \<noteq> null_group \<and> \<not> allow_move st r nr True
      then (Inr PosInf, BlockState st up)
      else
        (case virtual_move_level T v r nr ea st of
           (Inl err, st1) \<Rightarrow> (Inl err, BlockState st1 up)
         | (Inr dS, st1) \<Rightarrow>
            (case up of
               None \<Rightarrow> (Inr dS, BlockState st1 None)
             | Some P \<Rightarrow>
                (if \<not> 0 < vweight st1 v then (Inr dS, BlockState st1 (Some P))
                 else if ((r \<noteq> null_group \<and> wr st1 r = vweight st1 v) =
                          (nr \<noteq> null_group \<and> wr st1 nr = 0))
                 then (Inr dS, BlockState st1 (Some P))
                 else
                   (case (if r \<noteq> null_group \<and> wr st1 r = vweight st1 v
                          then (case virtual_move T r (bclabel st1 r) null_group
                                       (coupled_entropy_args st1) P of
                                  (Inl err, P1) \<Rightarrow> (Inl err, P1)
                                | (Inr d1, P1) \<Rightarrow> (Inr (dadd dS d1), P1))
                          else (Inr dS, P)) of
                      (Inl err, P1) \<Rightarrow> (Inl err, BlockState st1 (Some P1))
                    | (Inr dS1, P1) \<Rightarrow>
                       (if nr \<noteq> null_group \<and> wr st1 nr = 0
                        then (case virtual_move T nr null_group (bclabel st1 r)
                                     (coupled_entropy_args st1) P1 of
                                (Inl err, P2) \<Rightarrow> (Inl err, BlockState st1 (Some P2))
                              | (Inr d2, P2) \<Rightarrow>
                                  (Inr (dadd dS1 d2), BlockState st1 (Some P2)))
                        else (Inr dS1, BlockState st1 (Some P1))))))))"
  by pat_completeness auto
termination
  apply (relation "measure (\<lambda>(T, v, r, nr, ea, S). size S)")
    apply auto
  done

declare virtual_move.simps [simp del]

subsection \<open>Move proposal probability\<close>

text \<open>
  The lambda \<^verbatim>\<open>sum_prob\<close> of \<^verbatim>\<open>get_move_prob\<close>, for the edge \<open>e\<close> and the neighbour \<open>u\<close>:
  it adds to \<open>p\<close> and to the \<^verbatim>\<open>size_t\<close> counter \<open>w\<close>. \<open>Bc\<close> is the block count \<open>B\<close>
  and \<open>c\<close> a finite value.
\<close>

definition sum_prob ::
  "block_state \<Rightarrow> nat \<Rightarrow> nat \<Rightarrow> nat \<Rightarrow> real \<Rightarrow> bool \<Rightarrow> int \<Rightarrow> int \<Rightarrow> int \<Rightarrow>
   double \<times> int \<Rightarrow> edge \<times> nat \<Rightarrow> double \<times> int" where
  "sum_prob st v r s c reverse Bc kout kin pw eu =
     (let e = fst eu; u = snd eu;
          t = (if u = v then r else b st u);
          ew = size_t_of (eweight st e);
          w = size_t_of (snd pw + ew);
          directed = is_directed (g st);
          mts0 = get_beprop st t s;
          mtp0 = mrp st t;
          mst0 = (if directed then get_beprop st s t else mts0);
          mtm0 = (if directed then mrm st t else mtp0);
          dts = get_delta directed (m_entries st) t s;
          dst = (if directed then get_delta directed (m_entries st) s t else dts);
          mts1 = (if reverse then mts0 + dts else mts0);
          mst1 = (if reverse then mst0 + dst else mst0);
          mtp1 = (if reverse \<and> t = s then mtp0 - kout else mtp0);
          mtm1 = (if reverse \<and> t = s then mtm0 - kin else mtm0);
          mtp2 = (if reverse \<and> t = r then mtp1 + kout else mtp1);
          mtm2 = (if reverse \<and> t = r then mtm1 + kin else mtm1)
      in if directed
         then (dadd (fst pw)
                 (dscale (real_of_int ew)
                    (ddiv (real_of_int (mts1 + mst1) + c)
                          (real_of_int (mtp2 + mtm2) + c * real_of_int Bc))), w)
         else
           let mts2 = (if t = s then mts1 * 2 else mts1)
           in (dadd (fst pw)
                 (ddiv (real_of_int ew * (real_of_int mts2 + c))
                       (real_of_int mtp2 + c * real_of_int Bc)), w))"

text \<open>The block count \<open>B\<close> of the proposal: a \<^verbatim>\<open>size_t\<close>.\<close>

definition proposal_B :: "block_state \<Rightarrow> int" where
  "proposal_B st =
     (if empty_blocks st = [] then size_t_of (int (length (candidate_blocks st)) - 1)
      else int (length (candidate_blocks st)))"

text \<open>\<^verbatim>\<open>get_move_prob\<close> on a given entry set, here the one held in \<open>m_entries st\<close>.\<close>

definition get_move_prob_entries ::
  "nat \<Rightarrow> nat \<Rightarrow> nat \<Rightarrow> real \<Rightarrow> bool \<Rightarrow> block_state \<Rightarrow> double" where
  "get_move_prob_entries v r s c reverse st =
     (let Bc = proposal_B st;
          kout = size_t_of (out_degreeS st v);
          kin = (if is_directed (g st) then size_t_of (in_degreeS st v) else kout);
          outs = map (\<lambda>e. (e, target e)) (filter (\<lambda>e. target e \<noteq> v) (out_edges_range (g st) v));
          ins = map (\<lambda>e. (e, source e)) (filter (\<lambda>e. source e \<noteq> v) (in_edges_range (g st) v));
          pw = foldl (sum_prob st v r s c reverse Bc kout kin) (Finite 0, 0) (outs @ ins)
      in if 0 < snd pw then ddiv_count (fst pw) (real_of_int (snd pw))
         else ddiv 1 (real_of_int Bc))"

text \<open>
  \<^verbatim>\<open>get_move_prob(v, r, s, c, reverse)\<close> fills the scratch entry set first; it returns the
  probability and leaves the state with the new scratch contents.
\<close>

definition get_move_prob ::
  "nat \<Rightarrow> nat \<Rightarrow> nat \<Rightarrow> real \<Rightarrow> bool \<Rightarrow> block_state \<Rightarrow> double \<times> block_state" where
  "get_move_prob v r s c reverse st =
     (let st1 = get_move_entries v (b st v) (if reverse then r else s) no_filter st
      in (get_move_prob_entries v r s c reverse st1, st1))"

section \<open>The multicanonical sweep (multicanonical\_loop.hh)\<close>

text \<open>
  The members of \<^verbatim>\<open>MulticanonicalState\<close> that the sweep uses; entropies, densities,
  \<^verbatim>\<open>_f\<close> and \<^verbatim>\<open>_time\<close> are doubles. The class itself is not among the
  sources: its method \<^verbatim>\<open>get_bin\<close> is a parameter of the sweep, and what the random
  generator and the methods \<^verbatim>\<open>node_weight\<close>, \<^verbatim>\<open>move_proposal\<close>, \<^verbatim>\<open>virtual_move_dS\<close> deliver
  in one iteration is a \<open>draw\<close>; \<^verbatim>\<open>perform_move\<close> acts on the block state only.
\<close>

record mc_state =
  mc_S :: double
  S_min :: double
  S_max :: double
  hist :: "nat list"
  dens :: "double list"
  mc_f :: double
  mc_time :: double
  refine :: bool
  target_bin :: int
  niter :: nat

record draw =
  node_weight :: nat
  dS :: "double \<times> double"
  sample :: double

record sweep_vars =
  cur_S :: double
  cur_i :: int
  nmoves :: nat
  sv_state :: mc_state

text \<open>
  Reading or writing \<^verbatim>\<open>hist[i]\<close>, \<^verbatim>\<open>dens[i]\<close> with an index outside the vector is undefined
  in the source.
\<close>

definition in_bins :: "int \<Rightarrow> 'a list \<Rightarrow> bool" where
  "in_bins i xs = (0 \<le> i \<and> i < int (length xs))"

text \<open>The test \<^verbatim>\<open>x < S_min || x >= S_max\<close> of the sweep.\<close>

definition outside :: "mc_state \<Rightarrow> double \<Rightarrow> bool" where
  "outside st x = (dless x (S_min st) \<or> dge x (S_max st))"

text \<open>One iteration of the loop body from the proposal on, for a vertex of non-zero weight.\<close>

definition sweep_iter :: "(double \<Rightarrow> int) \<Rightarrow> draw \<Rightarrow> sweep_vars \<Rightarrow> error + sweep_vars" where
  "sweep_iter get_bin d \<sigma> =
     (let st = sv_state \<sigma>;
          M = int (length (hist st));
          nS = dadd (cur_S \<sigma>) (fst (dS d));
          i = cur_i \<sigma>;
          j = get_bin (dadd (cur_S \<sigma>) (fst (dS d)))
      in if \<not> outside st nS \<and> \<not> (in_bins i (dens st) \<and> in_bins j (dens st))
         then Inl (UndefinedBehaviour ''dens index out of range'')
         else
           let accept =
                 (if outside st nS then False
                  else
                    let a = dadd (dsub (dens st ! nat i) (dens st ! nat j)) (snd (dS d))
                    in if dless (Finite 0) a then True else dless (sample d) (dexp a));
               \<sigma>1 = (if accept
                     then \<sigma>\<lparr>nmoves := nmoves \<sigma> + 1, cur_S := dadd (cur_S \<sigma>) (fst (dS d)), cur_i := j\<rparr>
                     else \<sigma>);
               i1 = cur_i \<sigma>1
           in if \<not> (in_bins i1 (hist st) \<and> in_bins i1 (dens st))
              then Inl (UndefinedBehaviour ''hist index out of range'')
              else
                let st1 = st\<lparr>hist := (hist st)[nat i1 := hist st ! nat i1 + 1]\<rparr>;
                    st2 = st1\<lparr>dens := (dens st1)[nat i1 := dadd (dens st1 ! nat i1) (mc_f st1)]\<rparr>;
                    st3 = st2\<lparr>mc_time := dadd (mc_time st2) (ddiv 1 (real_of_int M))\<rparr>;
                    st4 = (if refine st3
                           then st3\<lparr>mc_f := dmul (mc_f st3)
                                    (ddivd (dsub (mc_time st3) (ddiv 1 (real_of_int M))) (mc_time st3))\<rparr>
                           else st3)
                in Inr (\<sigma>1\<lparr>sv_state := st4\<rparr>))"

text \<open>
  The \<^verbatim>\<open>for\<close> loop: \<open>n\<close> iterations remain, \<open>iter\<close> is the loop counter and \<open>D iter\<close> the
  draw of that iteration.
\<close>

fun sweep_loop :: "(double \<Rightarrow> int) \<Rightarrow> (nat \<Rightarrow> draw) \<Rightarrow> nat \<Rightarrow> nat \<Rightarrow> sweep_vars \<Rightarrow> error + sweep_vars" where
  "sweep_loop get_bin D 0 iter \<sigma> = Inr \<sigma>"
| "sweep_loop get_bin D (Suc n) iter \<sigma> =
     (if node_weight (D iter) = 0 then sweep_loop get_bin D n (Suc iter) \<sigma>
      else
        (case sweep_iter get_bin (D iter) \<sigma> of
           Inl err \<Rightarrow> Inl err
         | Inr \<sigma>1 \<Rightarrow>
             if cur_i \<sigma>1 = target_bin (sv_state \<sigma>1) then Inr \<sigma>1
             else sweep_loop get_bin D n (Suc iter) \<sigma>1))"

text \<open>The sweep returns the pair \<^verbatim>\<open>(S, nmoves)\<close> and leaves the state updated.\<close>

definition multicanonical_sweep ::
  "(double \<Rightarrow> int) \<Rightarrow> (nat \<Rightarrow> draw) \<Rightarrow> mc_state \<Rightarrow> error + ((double \<times> nat) \<times> mc_state)" where
  "multicanonical_sweep get_bin D st =
     (if outside st (mc_S st)
      then Inl (ValueException ''current state lies outside the allowed entropy range'')
      else
        (case sweep_loop get_bin D (niter st) 0
                \<lparr>cur_S = mc_S st, cur_i = get_bin (mc_S st), nmoves = 0, sv_state = st\<rparr> of
           Inl err \<Rightarrow> Inl err
         | Inr \<sigma> \<Rightarrow> Inr ((cur_S \<sigma>, nmoves \<sigma>), sv_state \<sigma>)))"

section \<open>Invariants and example states\<close>

text \<open>
  A pool list is \<open>indexed\<close> from position \<open>k\<close> on when its position map gives every
  later element its own index; the candidate pool is indexed from 1, behind the sentinel.
\<close>

definition indexed :: "nat \<Rightarrow> nat list \<Rightarrow> (nat \<Rightarrow> nat) \<Rightarrow> bool" where
  "indexed k xs pos = (\<forall>i. k \<le> i \<and> i < length xs \<longrightarrow> pos (xs ! i) = i)"

text \<open>Pool membership: what every block satisfies, with the sentinel at index 0.\<close>

definition pool_membership :: "block_state \<Rightarrow> bool" where
  "pool_membership st \<longleftrightarrow>
     (\<forall>r<bg_num_vertices st.
        (r \<in> set (empty_blocks st) \<longleftrightarrow> wr st r = 0) \<and>
        (r \<in> set (candidate_blocks st) \<longleftrightarrow> 0 < wr st r)) \<and>
     candidate_blocks st \<noteq> [] \<and> candidate_blocks st ! 0 = null_group"

text \<open>
  The invariant of the pools: membership as above, the position maps in step with the
  lists, no block of negative weight, and no block identifier equal to the sentinel.
\<close>

definition pools_wf :: "block_state \<Rightarrow> bool" where
  "pools_wf st \<longleftrightarrow>
     indexed 0 (empty_blocks st) (empty_pos st) \<and>
     indexed 1 (candidate_blocks st) (candidate_pos st) \<and>
     take 1 (candidate_blocks st) = [null_group] \<and>
     bg_num_vertices st \<le> null_group \<and>
     (\<forall>r<bg_num_vertices st.
        0 \<le> wr st r \<and>
        (r \<in> set (empty_blocks st) \<longleftrightarrow> wr st r = 0) \<and>
        (r \<in> set (drop 1 (candidate_blocks st)) \<longleftrightarrow> 0 < wr st r))"

text \<open>
  The node counts of \<^verbatim>\<open>check_node_counts\<close>, for the set \<open>P\<close> of the vertices that are
  currently counted in their block: every block weight is the sum of the weights of
  its vertices.
\<close>

definition node_counts :: "nat set \<Rightarrow> block_state \<Rightarrow> bool" where
  "node_counts P st \<longleftrightarrow>
     finite P \<and>
     (\<forall>v\<in>P. 0 \<le> vweight st v \<and> b st v < bg_num_vertices st) \<and>
     (\<forall>r<bg_num_vertices st. wr st r = sum (vweight st) {v \<in> P. b st v = r})"

text \<open>The totals of the weight-conservation property.\<close>

definition total_wr :: "block_state \<Rightarrow> int" where
  "total_wr st = sum_list (map (wr st) [0 ..< bg_num_vertices st])"

definition total_vweight :: "block_state \<Rightarrow> int" where
  "total_vweight st = sum_list (map (vweight st) (vertices_range (g st)))"

definition mrp_consistent :: "block_state \<Rightarrow> bool" where
  "mrp_consistent st \<longleftrightarrow>
     (\<forall>r<bg_num_vertices st.
        mrp st r = sum_list (map (get_beprop st r) [0 ..< bg_num_vertices st]))"

text \<open>
  Two states with the same graph, weights and number of blocks; two states that differ
  at most in the edge counts, the scratch entry set and the statistics switch.
\<close>

definition same_static :: "block_state \<Rightarrow> block_state \<Rightarrow> bool" where
  "same_static st st' \<longleftrightarrow>
     g st' = g st \<and> is_weighted st' = is_weighted st \<and> vweight_map st' = vweight_map st \<and>
     eweight_map st' = eweight_map st \<and> bg_num_vertices st' = bg_num_vertices st"

definition same_nodes :: "block_state \<Rightarrow> block_state \<Rightarrow> bool" where
  "same_nodes st st' \<longleftrightarrow>
     same_static st st' \<and> wr st' = wr st \<and> b st' = b st \<and> bclabel st' = bclabel st \<and>
     empty_blocks st' = empty_blocks st \<and> empty_pos st' = empty_pos st \<and>
     candidate_blocks st' = candidate_blocks st \<and> candidate_pos st' = candidate_pos st"

text \<open>
  The states reached from \<open>st0\<close> by calls of \<^verbatim>\<open>move_vertex\<close>, and by calls of
  \<^verbatim>\<open>add_vertex\<close>, \<^verbatim>\<open>remove_vertex\<close> and \<^verbatim>\<open>move_vertex\<close>, with blocks of the block graph. A
  call that throws leaves a reached state behind as well.
\<close>

inductive move_reachable :: "block_state \<Rightarrow> block_state \<Rightarrow> bool" for st0 where
  mr_init: "move_reachable st0 st0"
| mr_move: "move_reachable st0 st \<Longrightarrow> r < bg_num_vertices st \<Longrightarrow> nr < bg_num_vertices st \<Longrightarrow>
            move_vertex v r nr (BlockState st up) = (err, S') \<Longrightarrow> move_reachable st0 (level S')"

inductive reachable :: "block_state \<Rightarrow> block_state \<Rightarrow> bool" for st0 where
  re_init: "reachable st0 st0"
| re_add: "reachable st0 st \<Longrightarrow> r < bg_num_vertices st \<Longrightarrow>
           add_vertex v r st = (err, st') \<Longrightarrow> reachable st0 st'"
| re_remove: "reachable st0 st \<Longrightarrow> r < bg_num_vertices st \<Longrightarrow>
              remove_vertex v r st = (err, st') \<Longrightarrow> reachable st0 st'"
| re_move: "reachable st0 st \<Longrightarrow> r < bg_num_vertices st \<Longrightarrow> nr < bg_num_vertices st \<Longrightarrow>
            move_vertex v r nr (BlockState st up) = (err, S') \<Longrightarrow> reachable st0 (level S')"

text \<open>All the keys of an entry set are pairs of blocks of the block graph.\<close>

definition keys_below :: "nat \<Rightarrow> entries \<Rightarrow> bool" where
  "keys_below n es \<longleftrightarrow> (\<forall>k\<in>set (map fst es). fst k < n \<and> snd k < n)"

text \<open>An entropy is a number of the interval \<open>[S_min, S_max)\<close>; a histogram dominates another.\<close>

definition in_interval :: "mc_state \<Rightarrow> double \<Rightarrow> bool" where
  "in_interval st x = (dge x (S_min st) \<and> dless x (S_max st))"

definition hist_le :: "nat list \<Rightarrow> nat list \<Rightarrow> bool" where
  "hist_le h h' \<longleftrightarrow> length h' = length h \<and> (\<forall>k<length h. h ! k \<le> h' ! k)"

subsection \<open>The concrete scenario\<close>

text \<open>
  The undirected path on four vertices with unit weights, the partition \<open>[0,0,1,1]\<close>,
  first with all counters at zero and both blocks in the empty pool, then with the
  counters of that partition.
\<close>

definition path4 :: graph where
  "path4 = \<lparr>is_directed = False, num_vertices = 4, edge_list = [(0, 1), (1, 2), (2, 3)]\<rparr>"

definition no_args :: entropy_args_t where
  "no_args = \<lparr>adjacency = False, dense = False, multigraph = False, exact = False,
              partition_dl = False, degree_dl = False, degree_dl_kind = 0,
              edges_dl = False, recs = False\<rparr>"

definition scenario_init :: block_state where
  "scenario_init =
     \<lparr>g = path4, is_weighted = False, eweight_map = (\<lambda>e. 1), vweight_map = (\<lambda>v. 1),
      bg_num_vertices = 2, mrs = [], mrp = (\<lambda>r. 0), mrm = (\<lambda>r. 0), wr = (\<lambda>r. 0),
      b = (\<lambda>v. if v < 2 then 0 else 1),
      empty_blocks = [0, 1], empty_pos = (\<lambda>r. r),
      candidate_blocks = [null_group], candidate_pos = (\<lambda>r. 0),
      bclabel = (\<lambda>r. 0), deg_corr = False, m_entries = [],
      partition_stats_enabled = False, coupled_entropy_args = no_args\<rparr>"

definition scenario :: block_state where
  "scenario =
     \<lparr>g = path4, is_weighted = False, eweight_map = (\<lambda>e. 1), vweight_map = (\<lambda>v. 1),
      bg_num_vertices = 2, mrs = [((0, 0), 1), ((0, 1), 1), ((1, 1), 1)],
      mrp = (\<lambda>r. if r = 0 then 2 else if r = 1 then 1 else 0),
      mrm = (\<lambda>r. if r = 0 then 1 else if r = 1 then 2 else 0),
      wr = (\<lambda>r. if r < 2 then 2 else 0),
      b = (\<lambda>v. if v < 2 then 0 else 1),
      empty_blocks = [], empty_pos = (\<lambda>r. if r = 1 then 0 else r),
      candidate_blocks = [null_group, 0, 1],
      candidate_pos = (\<lambda>r. if r = 0 then 1 else if r = 1 then 2 else 0),
      bclabel = (\<lambda>r. 0), deg_corr = False, m_entries = [],
      partition_stats_enabled = False, coupled_entropy_args = no_args\<rparr>"

text \<open>Two vertices joined by one directed edge, each in its own block.\<close>

definition directed_pair :: block_state where
  "directed_pair =
     \<lparr>g = \<lparr>is_directed = True, num_vertices = 2, edge_list = [(0, 1)]\<rparr>,
      is_weighted = False, eweight_map = (\<lambda>e. 1), vweight_map = (\<lambda>v. 1),
      bg_num_vertices = 2, mrs = [((0, 1), 1)],
      mrp = (\<lambda>r. if r = 0 then 1 else 0), mrm = (\<lambda>r. if r = 1 then 1 else 0),
      wr = (\<lambda>r. if r < 2 then 1 else 0),
      b = (\<lambda>v. if v = 0 then 0 else 1),
      empty_blocks = [], empty_pos = (\<lambda>r. 0),
      candidate_blocks = [null_group, 0, 1], candidate_pos = (\<lambda>r. r + 1),
      bclabel = (\<lambda>r. 0), deg_corr = False, m_entries = [],
      partition_stats_enabled = False, coupled_entropy_args = no_args\<rparr>"

text \<open>The same state with a label barrier between the two blocks.\<close>

definition scenario_labelled :: block_state where
  "scenario_labelled = scenario\<lparr>bclabel := (\<lambda>r. r)\<rparr>"

text \<open>Term functions that return 1 everywhere.\<close>

definition unit_terms :: entropy_terms where
  "unit_terms =
     \<lparr>entries_dS = (\<lambda>ex st. Finite 1),
      vterm = (\<lambda>p m n dc d. Finite 1),
      vterm_exact = (\<lambda>p m n dc d. Finite 1),
      eterm_dense = (\<lambda>r s e wx wy mg d. Finite 1),
      delta_partition_dl = (\<lambda>st v r nr. Finite 1),
      delta_deg_dl = (\<lambda>st v r nr k. Finite 1),
      delta_edges_dl = (\<lambda>st v r nr. Finite 1),
      recs_dS = (\<lambda>st v r nr. Finite 1)\<rparr>"

subsection \<open>A two-level hierarchy\<close>

text \<open>
  A path on three vertices: vertex 0 alone in block 0, vertices 1 and 2 in block 1, and
  an empty block 2. The level above holds the three blocks, two of them of weight 1,
  in its single block. The coupled entropy arguments switch the partition description
  length on.
\<close>

definition partition_dl_args :: entropy_args_t where
  "partition_dl_args = no_args\<lparr>partition_dl := True\<rparr>"

definition lower_level :: block_state where
  "lower_level =
     \<lparr>g = \<lparr>is_directed = False, num_vertices = 3, edge_list = [(0, 1), (1, 2)]\<rparr>,
      is_weighted = False, eweight_map = (\<lambda>e. 1), vweight_map = (\<lambda>v. 1),
      bg_num_vertices = 3, mrs = [((0, 1), 1), ((1, 1), 1)],
      mrp = (\<lambda>r. if r = 0 then 1 else if r = 1 then 1 else 0),
      mrm = (\<lambda>r. if r = 1 then 2 else 0),
      wr = (\<lambda>r. if r = 0 then 1 else if r = 1 then 2 else 0),
      b = (\<lambda>v. if v = 0 then 0 else 1),
      empty_blocks = [2], empty_pos = (\<lambda>r. 0),
      candidate_blocks = [null_group, 0, 1], candidate_pos = (\<lambda>r. r + 1),
      bclabel = (\<lambda>r. 0), deg_corr = False, m_entries = [],
      partition_stats_enabled = False, coupled_entropy_args = partition_dl_args\<rparr>"

definition upper_level :: block_state where
  "upper_level =
     \<lparr>g = \<lparr>is_directed = False, num_vertices = 3, edge_list = [(0, 1), (1, 1)]\<rparr>,
      is_weighted = True, eweight_map = (\<lambda>e. 1), vweight_map = (\<lambda>v. if v < 2 then 1 else 0),
      bg_num_vertices = 1, mrs = [((0, 0), 2)],
      mrp = (\<lambda>r. if r = 0 then 2 else 0), mrm = (\<lambda>r. if r = 0 then 2 else 0),
      wr = (\<lambda>r. if r = 0 then 2 else 0),
      b = (\<lambda>v. 0),
      empty_blocks = [], empty_pos = (\<lambda>r. 0),
      candidate_blocks = [null_group, 0], candidate_pos = (\<lambda>r. r + 1),
      bclabel = (\<lambda>r. 0), deg_corr = False, m_entries = [],
      partition_stats_enabled = False, coupled_entropy_args = no_args\<rparr>"

definition two_levels :: BlockState where
  "two_levels = BlockState lower_level (Some (BlockState upper_level None))"

subsection \<open>A sweep\<close>

definition two_bins :: "double \<Rightarrow> int" where
  "two_bins x = (if dless x (Finite 1) then 0 else 1)"

definition sweep_start :: mc_state where
  "sweep_start =
     \<lparr>mc_S = Finite (1 / 2), S_min = Finite 0, S_max = Finite 2, hist = [0, 0],
      dens = [Finite 0, Finite 0], mc_f = Finite 1,
      mc_time = Finite 0, refine = False, target_bin = 5, niter = 2\<rparr>"

definition up_draws :: "nat \<Rightarrow> draw" where
  "up_draws n = \<lparr>node_weight = 1, dS = (Finite 1, Finite 1), sample = Finite 0\<rparr>"

text \<open>Proposals whose entropy difference is a NaN.\<close>

definition nan_draws :: "nat \<Rightarrow> draw" where
  "nan_draws n = \<lparr>node_weight = 1, dS = (NaN, Finite 1), sample = Finite 0\<rparr>"

section \<open>Properties\<close>

subsection \<open>Evaluation of the example states\<close>

lemmas eval_defs = path4_def scenario_init_def no_args_def
     out_edges_range_def in_edges_range_def all_edges_range_def insert_edge_def in_eset_def batch_edges_def
     modify_vertex_def modify_entry_def
     get_move_entries_def move_entries_def move_entries_out_def move_entries_in_def
     entries_op_def add_partition_node_def remove_partition_node_def vweight_def eweight_def
     add_element_def remove_element_def no_filter_def
     add_batch_edge_def vset_at_def get_me_def get_beprop_def me_key_def null_group_def
     insert_delta_def Let_def enumerate_eq_zip

lemmas eval_congs = prod.case_cong_weak let_weak_cong if_weak_cong option.case_cong_weak

lemma scenario_vset:
  "foldl (\<lambda>m vr. AList.update (fst vr) (snd vr) m) [] (zip [0, 1, 2, 3::nat] [0, 0, 1, 1::nat]) =
     [(0, 0), (1, 0), (2, 1), (3, 1)]"
  by simp

lemma scenario_eset:
  "batch_edges path4 (\<lambda>u. map_of [(0, 0), (1, 0), (2, 1), (3, 1::nat)] u \<noteq> None) [0, 1, 2, 3] =
     [Edge 0 1 0, Edge 1 2 1, Edge 2 3 2]"
  by (simp add: eval_defs cong: eval_congs)

lemma scenario_batch:
  "for_each (add_batch_edge [(0, 0), (1, 0), (2, 1), (3, 1)]) [Edge 0 1 0, Edge 1 2 1, Edge 2 3 2]
     (snd (for_each (\<lambda>vr. modify_vertex True (fst vr) (snd vr)
                            (in_eset [Edge 0 1 0, Edge 1 2 1, Edge 2 3 2]))
             [(0, 0), (1, 0), (2, 1), (3, 1)] scenario_init)) = (None, scenario)"
  by (simp add: eval_defs scenario_def fun_eq_iff cong: eval_congs)

lemma scenario_adds:
  "fst (for_each (\<lambda>vr. modify_vertex True (fst vr) (snd vr)
                            (in_eset [Edge 0 1 0, Edge 1 2 1, Edge 2 3 2]))
             [(0, 0), (1, 0), (2, 1), (3, 1)] scenario_init) = None"
  by (simp add: eval_defs cong: eval_congs)

lemma add_vertices_eq:
  assumes "length vs = length rs"
    and "foldl (\<lambda>m vr. AList.update (fst vr) (snd vr) m) [] (zip vs rs) = vset"
    and "batch_edges (g st) (\<lambda>u. map_of vset u \<noteq> None) (map fst vset) = eset"
    and "fst (for_each (\<lambda>vr. modify_vertex True (fst vr) (snd vr) (in_eset eset)) vset st) = None"
  shows "add_vertices vs rs st =
           for_each (add_batch_edge vset) eset
             (snd (for_each (\<lambda>vr. modify_vertex True (fst vr) (snd vr) (in_eset eset)) vset st))"
proof -
  obtain e st1 where r: "for_each (\<lambda>vr. modify_vertex True (fst vr) (snd vr) (in_eset eset)) vset st = (e, st1)"
    by (cases "for_each (\<lambda>vr. modify_vertex True (fst vr) (snd vr) (in_eset eset)) vset st")
  with assms(4) have e: "e = None" by simp
  show ?thesis
    unfolding add_vertices_def Let_def assms(2) assms(3) r
    using assms(1) e by simp
qed

lemma scenario_built: "add_vertices [0, 1, 2, 3] [0, 0, 1, 1] scenario_init = (None, scenario)"
proof -
  have "add_vertices [0, 1, 2, 3] [0, 0, 1, 1] scenario_init =
          for_each (add_batch_edge [(0, 0), (1, 0), (2, 1), (3, 1)])
            [Edge 0 1 0, Edge 1 2 1, Edge 2 3 2]
            (snd (for_each (\<lambda>vr. modify_vertex True (fst vr) (snd vr)
                                   (in_eset [Edge 0 1 0, Edge 1 2 1, Edge 2 3 2]))
                    [(0, 0), (1, 0), (2, 1), (3, 1)] scenario_init))"
  proof (rule add_vertices_eq)
    show "length [0, 1, 2, 3::nat] = length [0, 0, 1, 1::nat]" by simp
    show "foldl (\<lambda>m vr. AList.update (fst vr) (snd vr) m) [] (zip [0, 1, 2, 3::nat] [0, 0, 1, 1::nat]) =
            [(0, 0), (1, 0), (2, 1), (3, 1)]"
      by (rule scenario_vset)
    show "batch_edges (g scenario_init) (\<lambda>u. map_of [(0, 0), (1, 0), (2, 1), (3, 1::nat)] u \<noteq> None)
            (map fst [(0, 0), (1, 0), (2, 1), (3, 1::nat)]) = [Edge 0 1 0, Edge 1 2 1, Edge 2 3 2]"
      using scenario_eset by (simp add: scenario_init_def)
    show "fst (for_each (\<lambda>vr. modify_vertex True (fst vr) (snd vr)
                                 (in_eset [Edge 0 1 0, Edge 1 2 1, Edge 2 3 2]))
                 [(0, 0), (1, 0), (2, 1), (3, 1)] scenario_init) = None"
      by (rule scenario_adds)
  qed
  then show ?thesis by (simp only: scenario_batch)
qed

lemma scenario_counters:
  "get_beprop scenario 0 0 = 1 \<and> get_beprop scenario 0 1 = 1 \<and> get_beprop scenario 1 1 = 1 \<and>
   wr scenario 0 = 2 \<and> wr scenario 1 = 2"
  by (simp add: scenario_def get_beprop_def get_me_def me_key_def path4_def)


lemma scenario_move:
  "fst (move_vertex 1 0 1 (BlockState scenario None)) = None \<and>
   mrs (level (snd (move_vertex 1 0 1 (BlockState scenario None)))) = [((1, 1), 2), ((0, 1), 1)] \<and>
   g (level (snd (move_vertex 1 0 1 (BlockState scenario None)))) = path4 \<and>
   wr (level (snd (move_vertex 1 0 1 (BlockState scenario None)))) 0 = 1 \<and>
   wr (level (snd (move_vertex 1 0 1 (BlockState scenario None)))) 1 = 3"
  by (simp add: eval_defs scenario_def remove_vertex_def add_vertex_def move_vertex_def allow_move_def
       cong: eval_congs)

lemma scenario_move_counters:
  "get_beprop (level (snd (move_vertex 1 0 1 (BlockState scenario None)))) 0 0 = 0 \<and>
   get_beprop (level (snd (move_vertex 1 0 1 (BlockState scenario None)))) 0 1 = 1 \<and>
   get_beprop (level (snd (move_vertex 1 0 1 (BlockState scenario None)))) 1 1 = 2"
  using scenario_move by (simp add: get_beprop_def get_me_def me_key_def path4_def)

subsection \<open>Early returns of the virtual move\<close>

text \<open>
  Claim C1. \<^verbatim>\<open>virtual_move(v, r, nr, ea)\<close> returns exactly 0 when \<open>r = nr\<close>, and returns
  \<open>+\<infinity>\<close> when \<open>r\<close> and \<open>nr\<close> are both real blocks and the label constraint forbids
  the move (the labels differ and \<open>nr\<close> is not empty); in both cases the state, the
  scratch entry set included, is left as it was.
\<close>

theorem virtual_move_early_returns:
  "(r = nr \<longrightarrow> virtual_move T v r nr ea S = (Inr (Finite 0), S)) \<and>
   (r \<noteq> null_group \<and> nr \<noteq> null_group \<and>
    bclabel (level S) r \<noteq> bclabel (level S) nr \<and> wr (level S) nr \<noteq> 0 \<longrightarrow>
      virtual_move T v r nr ea S = (Inr PosInf, S))"
  by (cases S) (auto simp: virtual_move.simps allow_move_def)

theorem virtual_move_early_returns_witness:
  "virtual_move unit_terms 1 0 0 no_args (BlockState scenario None) =
     (Inr (Finite 0), BlockState scenario None) \<and>
   ((0::nat) \<noteq> null_group \<and> (1::nat) \<noteq> null_group \<and>
    bclabel scenario_labelled 0 \<noteq> bclabel scenario_labelled 1 \<and> wr scenario_labelled 1 \<noteq> 0) \<and>
   virtual_move unit_terms 1 0 1 no_args (BlockState scenario_labelled None) =
     (Inr PosInf, BlockState scenario_labelled None)"
  using virtual_move_early_returns [of 0 0 unit_terms 1 no_args "BlockState scenario None"]
    virtual_move_early_returns [of 0 1 unit_terms 1 no_args "BlockState scenario_labelled None"]
  by (simp add: scenario_labelled_def scenario_def null_group_def)

subsection \<open>Moving a vertex\<close>

lemma modify_entry_add_no_error: "fst (modify_entry True x st) = None"
  by (simp add: modify_entry_def Let_def)

lemma for_each_no_error:
  assumes "\<And>x st. fst (f x st) = None"
  shows "fst (for_each f xs st) = None"
proof (induction xs arbitrary: st)
  case Nil
  then show ?case by simp
next
  case (Cons x xs)
  obtain e st' where r: "f x st = (e, st')" by (cases "f x st")
  with assms[of x st] have "e = None" by simp
  with r Cons.IH show ?case by simp
qed

lemma add_vertex_no_error: "fst (modify_vertex True v r efilt st) = None"
proof -
  have "fst (for_each (modify_entry True) es st') = None" for es st'
    by (rule for_each_no_error) (rule modify_entry_add_no_error)
  then show ?thesis
    by (simp add: modify_vertex_def Let_def entries_op_def split: prod.splits option.splits)
      (metis fst_conv option.distinct(1))
qed

subsection \<open>The coupled state in a virtual move\<close>

lemma virtual_move_level_frame:
  "wr (snd (virtual_move_level T v r nr ea st)) = wr st"
  "vweight (snd (virtual_move_level T v r nr ea st)) = vweight st"
  "bclabel (snd (virtual_move_level T v r nr ea st)) = bclabel st"
  "coupled_entropy_args (snd (virtual_move_level T v r nr ea st)) = coupled_entropy_args st"
  by (simp_all add: virtual_move_level_def Let_def get_move_entries_def enable_partition_stats_def
      vweight_def fun_eq_iff split: sum.splits)

text \<open>
  Claim C5, as the code has it. With a coupled state attached and \<open>v\<close> of positive
  weight, the virtual move adds the delta of the parent level for block \<open>r\<close> when the
  move would vacate \<open>r\<close> and would not occupy \<open>nr\<close>, adds the delta of the parent level
  for block \<open>nr\<close> when the move would occupy \<open>nr\<close> and would not vacate \<open>r\<close>, and adds
  nothing, without evaluating the parent level, when it would do both or neither. At
  most one parent evaluation takes place.
\<close>

theorem virtual_move_coupled_delta:
  assumes "r \<noteq> nr" and "r = null_group \<or> nr = null_group \<or> allow_move st r nr True"
    and "virtual_move_level T v r nr ea st = (Inr d, st1)" and "0 < vweight st v"
  shows
    "(((r \<noteq> null_group \<and> wr st r = vweight st v) = (nr \<noteq> null_group \<and> wr st nr = 0)) \<longrightarrow>
        virtual_move T v r nr ea (BlockState st (Some P)) = (Inr d, BlockState st1 (Some P))) \<and>
     ((r \<noteq> null_group \<and> wr st r = vweight st v) \<and> \<not> (nr \<noteq> null_group \<and> wr st nr = 0) \<longrightarrow>
        virtual_move T v r nr ea (BlockState st (Some P)) =
          (case virtual_move T r (bclabel st r) null_group (coupled_entropy_args st) P of
             (Inl err, P1) \<Rightarrow> (Inl err, BlockState st1 (Some P1))
           | (Inr d1, P1) \<Rightarrow> (Inr (dadd d d1), BlockState st1 (Some P1)))) \<and>
     (\<not> (r \<noteq> null_group \<and> wr st r = vweight st v) \<and> (nr \<noteq> null_group \<and> wr st nr = 0) \<longrightarrow>
        virtual_move T v r nr ea (BlockState st (Some P)) =
          (case virtual_move T nr null_group (bclabel st r) (coupled_entropy_args st) P of
             (Inl err, P2) \<Rightarrow> (Inl err, BlockState st1 (Some P2))
           | (Inr d2, P2) \<Rightarrow> (Inr (dadd d d2), BlockState st1 (Some P2))))"
proof -
  have f: "wr st1 = wr st" "vweight st1 = vweight st" "bclabel st1 = bclabel st"
    "coupled_entropy_args st1 = coupled_entropy_args st"
    using virtual_move_level_frame [of T v r nr ea st] assms(3) by simp_all
  have g: "\<not> (r \<noteq> null_group \<and> nr \<noteq> null_group \<and> \<not> allow_move st r nr True)"
    using assms(2) by blast
  define vac where "vac \<longleftrightarrow> r \<noteq> null_group \<and> wr st r = vweight st v"
  define occ where "occ \<longleftrightarrow> nr \<noteq> null_group \<and> wr st nr = 0"
  define X where "X = virtual_move T r (bclabel st r) null_group (coupled_entropy_args st) P"
  have e: "virtual_move T v r nr ea (BlockState st (Some P)) =
      (if vac = occ then (Inr d, BlockState st1 (Some P))
       else
         (case (if vac
                then (case X of
                        (Inl err, P1) \<Rightarrow> (Inl err, P1)
                      | (Inr d1, P1) \<Rightarrow> (Inr (dadd d d1), P1))
                else (Inr d, P)) of
            (Inl err, P1) \<Rightarrow> (Inl err, BlockState st1 (Some P1))
          | (Inr dS1, P1) \<Rightarrow>
             (if occ
              then (case virtual_move T nr null_group (bclabel st r) (coupled_entropy_args st) P1 of
                      (Inl err, P2) \<Rightarrow> (Inl err, BlockState st1 (Some P2))
                    | (Inr d2, P2) \<Rightarrow> (Inr (dadd dS1 d2), BlockState st1 (Some P2)))
              else (Inr dS1, BlockState st1 (Some P1)))))"
  proof -
    have rn: "(r = nr) = False" using assms(1) by simp
    have g': "(r \<noteq> null_group \<and> nr \<noteq> null_group \<and> \<not> allow_move st r nr True) = False"
      using g by simp
    have vw: "(\<not> 0 < vweight st v) = False" using assms(4) by simp
    show ?thesis
      unfolding vac_def occ_def X_def
      by (rule virtual_move.simps [of T v r nr ea st "Some P",
            unfolded rn g' if_False assms(3) prod.case sum.case option.case f vw])
  qed
  have c1: "vac = occ \<longrightarrow>
        virtual_move T v r nr ea (BlockState st (Some P)) = (Inr d, BlockState st1 (Some P))"
    by (simp add: e)
  have c2: "vac \<and> \<not> occ \<longrightarrow>
        virtual_move T v r nr ea (BlockState st (Some P)) =
          (case X of
             (Inl err, P1) \<Rightarrow> (Inl err, BlockState st1 (Some P1))
           | (Inr d1, P1) \<Rightarrow> (Inr (dadd d d1), BlockState st1 (Some P1)))"
  proof (cases X)
    case (Pair x P1)
    then show ?thesis by (cases x) (auto simp: e)
  qed
  have c3: "\<not> vac \<and> occ \<longrightarrow>
        virtual_move T v r nr ea (BlockState st (Some P)) =
          (case virtual_move T nr null_group (bclabel st r) (coupled_entropy_args st) P of
             (Inl err, P2) \<Rightarrow> (Inl err, BlockState st1 (Some P2))
           | (Inr d2, P2) \<Rightarrow> (Inr (dadd d d2), BlockState st1 (Some P2)))"
    by (auto simp: e)
  from c1 c2 c3 show ?thesis
    unfolding vac_def occ_def X_def by blast
qed

lemma lower_level_local:
  "virtual_move_level unit_terms v r nr no_args lower_level =
     (Inr (Finite 0), snd (virtual_move_level unit_terms v r nr no_args lower_level))"
  by (simp add: virtual_move_level_def no_args_def Let_def)

lemma upper_level_delta:
  "r \<noteq> nr \<Longrightarrow> r = null_group \<or> nr = null_group \<Longrightarrow>
   fst (virtual_move unit_terms v r nr partition_dl_args (BlockState upper_level None)) =
     Inr (Finite 1)"
  by (auto simp: virtual_move.simps virtual_move_level_def partition_dl_args_def no_args_def
      unit_terms_def Let_def)

lemma lower_level_facts:
  "vweight lower_level v = 1" "wr lower_level 0 = 1" "wr lower_level 1 = 2" "wr lower_level 2 = 0"
  "bclabel lower_level r = 0" "coupled_entropy_args lower_level = partition_dl_args"
  "(0::nat) \<noteq> null_group" "(1::nat) \<noteq> null_group" "(2::nat) \<noteq> null_group"
  "wr lower_level (Suc 0) = 2" "Suc 0 \<noteq> null_group" "0 < null_group" "null_group \<noteq> 0"
  by (simp_all add: lower_level_def vweight_def null_group_def)

theorem virtual_move_coupled_delta_witness:
  "virtual_move unit_terms 0 0 2 no_args two_levels =
     (Inr (Finite 0),
      BlockState (snd (virtual_move_level unit_terms 0 0 2 no_args lower_level))
        (Some (BlockState upper_level None))) \<and>
   fst (virtual_move unit_terms 0 0 1 no_args two_levels) = Inr (Finite 1) \<and>
   fst (virtual_move unit_terms 1 1 2 no_args two_levels) = Inr (Finite 1)"
proof -
  have a: "virtual_move unit_terms 0 0 2 no_args two_levels =
     (Inr (Finite 0),
      BlockState (snd (virtual_move_level unit_terms 0 0 2 no_args lower_level))
        (Some (BlockState upper_level None)))"
    using virtual_move_coupled_delta [where r = 0 and nr = 2 and st = lower_level and T = unit_terms
        and v = 0 and ea = no_args and P = "BlockState upper_level None",
        OF _ _ lower_level_local]
    by (simp add: lower_level_facts allow_move_def two_levels_def)
  have u1: "fst (virtual_move unit_terms 0 0 null_group partition_dl_args (BlockState upper_level None)) =
      Inr (Finite 1)"
    by (rule upper_level_delta) (simp_all add: lower_level_facts)
  have b1: "virtual_move unit_terms 0 0 1 no_args two_levels =
          (case virtual_move unit_terms 0 0 null_group partition_dl_args (BlockState upper_level None) of
             (Inl err, P1) \<Rightarrow>
               (Inl err, BlockState (snd (virtual_move_level unit_terms 0 0 1 no_args lower_level)) (Some P1))
           | (Inr d1, P1) \<Rightarrow>
               (Inr (dadd (Finite 0) d1),
                BlockState (snd (virtual_move_level unit_terms 0 0 1 no_args lower_level)) (Some P1)))"
    using virtual_move_coupled_delta [where r = 0 and nr = 1 and st = lower_level and T = unit_terms
        and v = 0 and ea = no_args and P = "BlockState upper_level None",
        OF _ _ lower_level_local]
    by (simp add: lower_level_facts allow_move_def two_levels_def)
  have b: "fst (virtual_move unit_terms 0 0 1 no_args two_levels) = Inr (Finite 1)"
    unfolding b1 using u1
    by (cases "virtual_move unit_terms 0 0 null_group partition_dl_args (BlockState upper_level None)")
       auto
  have u2: "fst (virtual_move unit_terms 2 null_group 0 partition_dl_args (BlockState upper_level None)) =
      Inr (Finite 1)"
    by (rule upper_level_delta) (simp_all add: lower_level_facts)
  have c1: "virtual_move unit_terms 1 1 2 no_args two_levels =
          (case virtual_move unit_terms 2 null_group 0 partition_dl_args (BlockState upper_level None) of
             (Inl err, P2) \<Rightarrow>
               (Inl err, BlockState (snd (virtual_move_level unit_terms 1 1 2 no_args lower_level)) (Some P2))
           | (Inr d2, P2) \<Rightarrow>
               (Inr (dadd (Finite 0) d2),
                BlockState (snd (virtual_move_level unit_terms 1 1 2 no_args lower_level)) (Some P2)))"
    using virtual_move_coupled_delta [where r = 1 and nr = 2 and st = lower_level and T = unit_terms
        and v = 1 and ea = no_args and P = "BlockState upper_level None",
        OF _ _ lower_level_local]
    by (simp add: lower_level_facts allow_move_def two_levels_def)
  have c: "fst (virtual_move unit_terms 1 1 2 no_args two_levels) = Inr (Finite 1)"
    unfolding c1 using u2
    by (cases "virtual_move unit_terms 2 null_group 0 partition_dl_args (BlockState upper_level None)")
       auto
  from a b c show ?thesis by blast
qed

text \<open>
  The claim as it was stated (each parent delta is added whenever its own condition
  holds) fails on the two-level example: moving vertex 0 from block 0 to the empty
  block 2 vacates block 0 and occupies block 2, each parent delta is 1, and the virtual
  move returns the delta of the level alone.
\<close>

theorem virtual_move_coupled_counterexample:
  "0 < vweight lower_level 0 \<and>
   ((0::nat) \<noteq> null_group \<and> wr lower_level 0 = vweight lower_level 0) \<and>
   ((2::nat) \<noteq> null_group \<and> wr lower_level 2 = 0) \<and>
   fst (virtual_move unit_terms 0 (bclabel lower_level 0) null_group
          (coupled_entropy_args lower_level) (BlockState upper_level None)) = Inr (Finite 1) \<and>
   fst (virtual_move unit_terms 2 null_group (bclabel lower_level 0)
          (coupled_entropy_args lower_level) (BlockState upper_level None)) = Inr (Finite 1) \<and>
   fst (virtual_move unit_terms 0 0 2 no_args (BlockState lower_level None)) = Inr (Finite 0) \<and>
   fst (virtual_move unit_terms 0 0 2 no_args two_levels) = Inr (Finite 0)"
proof -
  have u1: "fst (virtual_move unit_terms 0 0 null_group partition_dl_args (BlockState upper_level None)) =
      Inr (Finite 1)"
    by (rule upper_level_delta) (simp_all add: lower_level_facts)
  have u2: "fst (virtual_move unit_terms 2 null_group 0 partition_dl_args (BlockState upper_level None)) =
      Inr (Finite 1)"
    by (rule upper_level_delta) (simp_all add: lower_level_facts)
  have l: "fst (virtual_move unit_terms 0 0 2 no_args (BlockState lower_level None)) = Inr (Finite 0)"
    by (subst virtual_move.simps, subst lower_level_local)
       (simp add: lower_level_facts allow_move_def)
  have t: "fst (virtual_move unit_terms 0 0 2 no_args two_levels) = Inr (Finite 0)"
    unfolding two_levels_def
    by (subst virtual_move.simps, subst lower_level_local)
       (simp add: lower_level_facts allow_move_def virtual_move_level_frame)
  from u1 u2 l t show ?thesis by (simp add: lower_level_facts)
qed

subsection \<open>The concrete scenario\<close>

lemma scenario_sequential:
  "fst (add_vertex 0 0 scenario_init) = None \<and>
   fst (add_vertex 1 0 (snd (add_vertex 0 0 scenario_init))) = None \<and>
   fst (add_vertex 2 1 (snd (add_vertex 1 0 (snd (add_vertex 0 0 scenario_init))))) = None \<and>
   fst (add_vertex 3 1 (snd (add_vertex 2 1 (snd (add_vertex 1 0 (snd (add_vertex 0 0 scenario_init))))))) = None \<and>
   mrs (snd (add_vertex 3 1 (snd (add_vertex 2 1 (snd (add_vertex 1 0 (snd (add_vertex 0 0 scenario_init)))))))) =
     [((0, 0), 2), ((0, 1), 2), ((1, 1), 2)] \<and>
   g (snd (add_vertex 3 1 (snd (add_vertex 2 1 (snd (add_vertex 1 0 (snd (add_vertex 0 0 scenario_init)))))))) = path4 \<and>
   wr (snd (add_vertex 3 1 (snd (add_vertex 2 1 (snd (add_vertex 1 0 (snd (add_vertex 0 0 scenario_init)))))))) 0 = 2 \<and>
   wr (snd (add_vertex 3 1 (snd (add_vertex 2 1 (snd (add_vertex 1 0 (snd (add_vertex 0 0 scenario_init)))))))) 1 = 2"
  by (simp add: eval_defs add_vertex_def cong: eval_congs)

lemma scenario_sequential_counters:
  "get_beprop (snd (add_vertex 3 1 (snd (add_vertex 2 1 (snd (add_vertex 1 0 (snd (add_vertex 0 0 scenario_init)))))))) 0 1 = 2 \<and>
   get_beprop (snd (add_vertex 3 1 (snd (add_vertex 2 1 (snd (add_vertex 1 0 (snd (add_vertex 0 0 scenario_init)))))))) 0 0 = 2 \<and>
   get_beprop (snd (add_vertex 3 1 (snd (add_vertex 2 1 (snd (add_vertex 1 0 (snd (add_vertex 0 0 scenario_init)))))))) 1 1 = 2"
  using scenario_sequential by (simp add: get_beprop_def get_me_def me_key_def path4_def)

lemma scenario_removals:
  "fst (remove_vertex 0 0 scenario) = None \<and> fst (remove_vertex 1 0 scenario) = None \<and>
   fst (remove_vertex 2 1 scenario) = None \<and> fst (remove_vertex 3 1 scenario) = None"
  by (simp add: eval_defs scenario_def remove_vertex_def cong: eval_congs)

lemma scenario_round_trip_0:
  "mrs (snd (add_vertex 0 0 (snd (remove_vertex 0 0 scenario)))) = [((0, 1), 1), ((1, 1), 1), ((0, 0), 1)] \<and>
   g (snd (add_vertex 0 0 (snd (remove_vertex 0 0 scenario)))) = path4 \<and>
   wr (snd (add_vertex 0 0 (snd (remove_vertex 0 0 scenario)))) 0 = 2 \<and>
   wr (snd (add_vertex 0 0 (snd (remove_vertex 0 0 scenario)))) 1 = 2"
  by (simp add: eval_defs scenario_def remove_vertex_def add_vertex_def cong: eval_congs)

lemma scenario_round_trip_1:
  "mrs (snd (add_vertex 1 0 (snd (remove_vertex 1 0 scenario)))) = [((1, 1), 1), ((0, 0), 1), ((0, 1), 1)] \<and>
   g (snd (add_vertex 1 0 (snd (remove_vertex 1 0 scenario)))) = path4 \<and>
   wr (snd (add_vertex 1 0 (snd (remove_vertex 1 0 scenario)))) 0 = 2 \<and>
   wr (snd (add_vertex 1 0 (snd (remove_vertex 1 0 scenario)))) 1 = 2"
  by (simp add: eval_defs scenario_def remove_vertex_def add_vertex_def cong: eval_congs)

lemma scenario_round_trip_2:
  "mrs (snd (add_vertex 2 1 (snd (remove_vertex 2 1 scenario)))) = [((0, 0), 1), ((0, 1), 1), ((1, 1), 1)] \<and>
   g (snd (add_vertex 2 1 (snd (remove_vertex 2 1 scenario)))) = path4 \<and>
   wr (snd (add_vertex 2 1 (snd (remove_vertex 2 1 scenario)))) 0 = 2 \<and>
   wr (snd (add_vertex 2 1 (snd (remove_vertex 2 1 scenario)))) 1 = 2"
  by (simp add: eval_defs scenario_def remove_vertex_def add_vertex_def cong: eval_congs)

lemma scenario_round_trip_3:
  "mrs (snd (add_vertex 3 1 (snd (remove_vertex 3 1 scenario)))) = [((0, 0), 1), ((0, 1), 1), ((1, 1), 1)] \<and>
   g (snd (add_vertex 3 1 (snd (remove_vertex 3 1 scenario)))) = path4 \<and>
   wr (snd (add_vertex 3 1 (snd (remove_vertex 3 1 scenario)))) 0 = 2 \<and>
   wr (snd (add_vertex 3 1 (snd (remove_vertex 3 1 scenario)))) 1 = 2"
  by (simp add: eval_defs scenario_def remove_vertex_def add_vertex_def cong: eval_congs)

lemma scenario_round_trip_counters:
  "get_beprop (snd (add_vertex 0 0 (snd (remove_vertex 0 0 scenario)))) 0 1 = 1 \<and>
   get_beprop (snd (add_vertex 0 0 (snd (remove_vertex 0 0 scenario)))) 0 0 = 1 \<and>
   get_beprop (snd (add_vertex 0 0 (snd (remove_vertex 0 0 scenario)))) 1 1 = 1 \<and>
   get_beprop (snd (add_vertex 1 0 (snd (remove_vertex 1 0 scenario)))) 0 1 = 1 \<and>
   get_beprop (snd (add_vertex 1 0 (snd (remove_vertex 1 0 scenario)))) 0 0 = 1 \<and>
   get_beprop (snd (add_vertex 1 0 (snd (remove_vertex 1 0 scenario)))) 1 1 = 1 \<and>
   get_beprop (snd (add_vertex 2 1 (snd (remove_vertex 2 1 scenario)))) 0 1 = 1 \<and>
   get_beprop (snd (add_vertex 2 1 (snd (remove_vertex 2 1 scenario)))) 0 0 = 1 \<and>
   get_beprop (snd (add_vertex 2 1 (snd (remove_vertex 2 1 scenario)))) 1 1 = 1 \<and>
   get_beprop (snd (add_vertex 3 1 (snd (remove_vertex 3 1 scenario)))) 0 1 = 1 \<and>
   get_beprop (snd (add_vertex 3 1 (snd (remove_vertex 3 1 scenario)))) 0 0 = 1 \<and>
   get_beprop (snd (add_vertex 3 1 (snd (remove_vertex 3 1 scenario)))) 1 1 = 1"
  using scenario_round_trip_0 scenario_round_trip_1 scenario_round_trip_2 scenario_round_trip_3
  by (simp add: get_beprop_def get_me_def me_key_def path4_def)

text \<open>
  The claim as it was stated has \<open>mrs[0,1] = 0\<close> after the move; the edge \<open>(0,1)\<close> then
  joins vertex 0 in block 0 to vertex 1 in block 1, and the count is 1. And counters
  that \<^verbatim>\<open>add_vertex\<close> builds from zero, one vertex after the other, do not have
  \<open>mrs[0,1] = 1\<close>: every call books all the edges of its vertex, so that the edge \<open>(1,2)\<close>
  is booked twice.
\<close>

theorem scenario_cross_edge_counterexample:
  "get_beprop (level (snd (move_vertex 1 0 1 (BlockState scenario None)))) 0 1 \<noteq> 0 \<and>
   get_beprop (snd (add_vertex 3 1 (snd (add_vertex 2 1 (snd (add_vertex 1 0
      (snd (add_vertex 0 0 scenario_init)))))))) 0 1 \<noteq> 1"
  using scenario_move_counters scenario_sequential_counters by simp

text \<open>
  Claim C6, as the code has it. On the path \<open>0 - 1 - 2 - 3\<close> with unit weights and
  the partition \<open>[0,0,1,1]\<close>, the counters of the partition are \<open>mrs[0,1] = 1\<close>,
  \<open>mrs[0,0] = 1\<close>, \<open>mrs[1,1] = 1\<close>, \<open>wr[0] = 2\<close> and \<open>wr[1] = 2\<close>: \<^verbatim>\<open>add_vertices\<close> builds
  them from zero, and for each of the four vertices \<^verbatim>\<open>remove_vertex\<close> followed by
  \<^verbatim>\<open>add_vertex\<close> into the same block gives them back. Built from zero by \<^verbatim>\<open>add_vertex\<close>
  on one vertex after the other, every count of edges is 2. After \<^verbatim>\<open>move_vertex(1, 0, 1)\<close>
  on the counters of the partition the counts are \<open>mrs[0,1] = 1\<close> (the edge \<open>(0,1)\<close> is
  now the cross edge), \<open>mrs[0,0] = 0\<close>, \<open>mrs[1,1] = 2\<close> (the edge \<open>(1,2)\<close> has become
  internal), \<open>wr[0] = 1\<close> and \<open>wr[1] = 3\<close>.
\<close>

theorem scenario_counts:
  "get_beprop scenario 0 1 = 1 \<and> get_beprop scenario 0 0 = 1 \<and> get_beprop scenario 1 1 = 1 \<and>
   wr scenario 0 = 2 \<and> wr scenario 1 = 2 \<and>
   add_vertices [0, 1, 2, 3] [0, 0, 1, 1] scenario_init = (None, scenario) \<and>
   fst (remove_vertex 0 0 scenario) = None \<and>
   get_beprop (snd (add_vertex 0 0 (snd (remove_vertex 0 0 scenario)))) 0 1 = 1 \<and>
   get_beprop (snd (add_vertex 0 0 (snd (remove_vertex 0 0 scenario)))) 0 0 = 1 \<and>
   get_beprop (snd (add_vertex 0 0 (snd (remove_vertex 0 0 scenario)))) 1 1 = 1 \<and>
   wr (snd (add_vertex 0 0 (snd (remove_vertex 0 0 scenario)))) 0 = 2 \<and>
   wr (snd (add_vertex 0 0 (snd (remove_vertex 0 0 scenario)))) 1 = 2 \<and>
   fst (remove_vertex 1 0 scenario) = None \<and>
   get_beprop (snd (add_vertex 1 0 (snd (remove_vertex 1 0 scenario)))) 0 1 = 1 \<and>
   get_beprop (snd (add_vertex 1 0 (snd (remove_vertex 1 0 scenario)))) 0 0 = 1 \<and>
   get_beprop (snd (add_vertex 1 0 (snd (remove_vertex 1 0 scenario)))) 1 1 = 1 \<and>
   wr (snd (add_vertex 1 0 (snd (remove_vertex 1 0 scenario)))) 0 = 2 \<and>
   wr (snd (add_vertex 1 0 (snd (remove_vertex 1 0 scenario)))) 1 = 2 \<and>
   fst (remove_vertex 2 1 scenario) = None \<and>
   get_beprop (snd (add_vertex 2 1 (snd (remove_vertex 2 1 scenario)))) 0 1 = 1 \<and>
   get_beprop (snd (add_vertex 2 1 (snd (remove_vertex 2 1 scenario)))) 0 0 = 1 \<and>
   get_beprop (snd (add_vertex 2 1 (snd (remove_vertex 2 1 scenario)))) 1 1 = 1 \<and>
   wr (snd (add_vertex 2 1 (snd (remove_vertex 2 1 scenario)))) 0 = 2 \<and>
   wr (snd (add_vertex 2 1 (snd (remove_vertex 2 1 scenario)))) 1 = 2 \<and>
   fst (remove_vertex 3 1 scenario) = None \<and>
   get_beprop (snd (add_vertex 3 1 (snd (remove_vertex 3 1 scenario)))) 0 1 = 1 \<and>
   get_beprop (snd (add_vertex 3 1 (snd (remove_vertex 3 1 scenario)))) 0 0 = 1 \<and>
   get_beprop (snd (add_vertex 3 1 (snd (remove_vertex 3 1 scenario)))) 1 1 = 1 \<and>
   wr (snd (add_vertex 3 1 (snd (remove_vertex 3 1 scenario)))) 0 = 2 \<and>
   wr (snd (add_vertex 3 1 (snd (remove_vertex 3 1 scenario)))) 1 = 2 \<and>
   get_beprop (snd (add_vertex 3 1 (snd (add_vertex 2 1 (snd (add_vertex 1 0
      (snd (add_vertex 0 0 scenario_init)))))))) 0 1 = 2 \<and>
   get_beprop (snd (add_vertex 3 1 (snd (add_vertex 2 1 (snd (add_vertex 1 0
      (snd (add_vertex 0 0 scenario_init)))))))) 0 0 = 2 \<and>
   get_beprop (snd (add_vertex 3 1 (snd (add_vertex 2 1 (snd (add_vertex 1 0
      (snd (add_vertex 0 0 scenario_init)))))))) 1 1 = 2 \<and>
   wr (snd (add_vertex 3 1 (snd (add_vertex 2 1 (snd (add_vertex 1 0
      (snd (add_vertex 0 0 scenario_init)))))))) 0 = 2 \<and>
   wr (snd (add_vertex 3 1 (snd (add_vertex 2 1 (snd (add_vertex 1 0
      (snd (add_vertex 0 0 scenario_init)))))))) 1 = 2 \<and>
   fst (move_vertex 1 0 1 (BlockState scenario None)) = None \<and>
   get_beprop (level (snd (move_vertex 1 0 1 (BlockState scenario None)))) 0 1 = 1 \<and>
   get_beprop (level (snd (move_vertex 1 0 1 (BlockState scenario None)))) 0 0 = 0 \<and>
   get_beprop (level (snd (move_vertex 1 0 1 (BlockState scenario None)))) 1 1 = 2 \<and>
   wr (level (snd (move_vertex 1 0 1 (BlockState scenario None)))) 0 = 1 \<and>
   wr (level (snd (move_vertex 1 0 1 (BlockState scenario None)))) 1 = 3"
  using scenario_built scenario_counters scenario_move scenario_move_counters
    scenario_removals scenario_round_trip_0 scenario_round_trip_1 scenario_round_trip_2
    scenario_round_trip_3 scenario_round_trip_counters scenario_sequential
    scenario_sequential_counters
  by simp

subsection \<open>Bulk operations on arrays of unequal length\<close>

lemma scenario_move_b:
  "b scenario 1 = 0 \<and> b (level (snd (move_vertex 1 0 1 (BlockState scenario None)))) 1 = 1"
  by (simp add: eval_defs scenario_def remove_vertex_def add_vertex_def move_vertex_def allow_move_def
       cong: eval_congs)

text \<open>
  The claim as it was stated fails for the template \<^verbatim>\<open>move_vertices\<close>: with two vertices
  and one block it raises nothing and moves the first vertex.
\<close>

theorem move_vertices_common_prefix_counterexample:
  "length [1::nat, 2] \<noteq> length [1::nat] \<and>
   fst (move_vertices [1, 2] [1] (BlockState scenario None)) = None \<and>
   b (level (snd (move_vertices [1, 2] [1] (BlockState scenario None)))) 1 = 1"
proof -
  obtain S' where m: "move_vertex 1 0 1 (BlockState scenario None) = (None, S')"
    using scenario_move by (cases "move_vertex 1 0 1 (BlockState scenario None)") auto
  have b0: "b scenario 1 = 0" using scenario_move_b by simp
  have b1: "b (level S') 1 = 1" using scenario_move_b unfolding m snd_conv by simp
  have mv: "move_vertex2 1 1 (BlockState scenario None) = (None, S')"
    by (simp only: move_vertex2_def BlockState.sel b0 m)
  have z: "zip [1::nat, 2] [1::nat] = [(1, 1)]" by simp
  have "move_vertices [1, 2] [1] (BlockState scenario None) = (None, S')"
    by (simp only: move_vertices_def z for_each.simps fst_conv snd_conv mv prod.case option.case)
  with b1 show ?thesis by simp
qed

text \<open>
  Claim C7, as the code has it. On arrays of unequal length, \<^verbatim>\<open>add_vertices(vs, rs)\<close> and
  the array entry point \<^verbatim>\<open>move_vertices(ovs, ors)\<close> raise the \<^verbatim>\<open>ValueException\<close> and
  change nothing; the template \<^verbatim>\<open>move_vertices(v, nr)\<close> does not compare the sizes and
  does what it does on the common prefix of the two arrays.
\<close>

theorem bulk_length_mismatch:
  "length vs \<noteq> length rs \<Longrightarrow>
     add_vertices vs rs st =
       (Some (ValueException ''vertex and group lists do not have the same size''), st) \<and>
     move_vertices_py vs rs S =
       (Some (ValueException ''vertex and group lists do not have the same size''), S) \<and>
     move_vertices vs rs S =
       move_vertices (take (min (length vs) (length rs)) vs)
                     (take (min (length vs) (length rs)) rs) S"
proof -
  assume "length vs \<noteq> length rs"
  moreover have "zip (take (min (length vs) (length rs)) vs) (take (min (length vs) (length rs)) rs) =
      zip vs rs"
    by (simp add: take_zip [symmetric])
  ultimately show ?thesis
    by (simp add: add_vertices_def move_vertices_py_def move_vertices_def)
qed

theorem bulk_length_mismatch_witness:
  "length [1::nat, 2] \<noteq> length [1::nat] \<and>
   add_vertices [1, 2] [1] scenario =
     (Some (ValueException ''vertex and group lists do not have the same size''), scenario) \<and>
   move_vertices_py [1, 2] [1] (BlockState scenario None) =
     (Some (ValueException ''vertex and group lists do not have the same size''),
      BlockState scenario None) \<and>
   move_vertices [1, 2] [1] (BlockState scenario None) =
     move_vertices [1] [1] (BlockState scenario None)"
  using bulk_length_mismatch [of "[1, 2]" "[1]" scenario "BlockState scenario None"]
  by simp

subsection \<open>Dense evaluation with degree correction\<close>

text \<open>
  Claim C8. On a degree-corrected state the dense virtual-move evaluation and the dense
  entropy raise the \<^verbatim>\<open>GraphException\<close> instead of returning a value, for every vertex
  and all blocks; so does a virtual move whose configuration selects the dense
  adjacency term, once it is past its two early returns.
\<close>

theorem dense_deg_corr_raises:
  "deg_corr st \<Longrightarrow>
     virtual_move_dense T v r nr mg st =
       Inl (GraphException ''Dense entropy for degree corrected model not implemented!'') \<and>
     dense_entropy T mg st =
       Inl (GraphException ''Dense entropy for degree corrected model not implemented!'') \<and>
     (adjacency ea \<and> dense ea \<and> r \<noteq> nr \<and>
      (r = null_group \<or> nr = null_group \<or> allow_move st r nr True) \<longrightarrow>
        fst (virtual_move T v r nr ea (BlockState st up)) =
          Inl (GraphException ''Dense entropy for degree corrected model not implemented!''))"
  by (auto simp: virtual_move.simps virtual_move_level_def virtual_move_dense_def dense_entropy_def
      get_move_entries_def Let_def)

theorem dense_deg_corr_raises_witness:
  "deg_corr (scenario\<lparr>deg_corr := True\<rparr>) \<and>
   virtual_move_dense unit_terms 1 0 1 False (scenario\<lparr>deg_corr := True\<rparr>) =
     Inl (GraphException ''Dense entropy for degree corrected model not implemented!'') \<and>
   dense_entropy unit_terms False (scenario\<lparr>deg_corr := True\<rparr>) =
     Inl (GraphException ''Dense entropy for degree corrected model not implemented!'') \<and>
   fst (virtual_move unit_terms 1 0 1 (no_args\<lparr>adjacency := True, dense := True\<rparr>)
          (BlockState (scenario\<lparr>deg_corr := True\<rparr>) None)) =
     Inl (GraphException ''Dense entropy for degree corrected model not implemented!'')"
  using dense_deg_corr_raises [of "scenario\<lparr>deg_corr := True\<rparr>" unit_terms 1 0 1 False
      "no_args\<lparr>adjacency := True, dense := True\<rparr>" None]
  by (simp add: allow_move_def scenario_def)

subsection \<open>The multicanonical sweep\<close>

lemma in_interval_not_outside: "in_interval st x \<Longrightarrow> \<not> outside st x"
  by (cases x; cases "S_min st"; cases "S_max st") (auto simp: in_interval_def outside_def)

lemma not_outside_in_interval:
  "\<not> outside st x \<Longrightarrow> x \<noteq> NaN \<Longrightarrow> S_min st \<noteq> NaN \<Longrightarrow> S_max st \<noteq> NaN \<Longrightarrow> in_interval st x"
  by (cases x; cases "S_min st"; cases "S_max st") (auto simp: in_interval_def outside_def)


lemma hist_le_refl: "hist_le h h"
  by (simp add: hist_le_def)

lemma hist_le_trans: "hist_le h h' \<Longrightarrow> hist_le h' h'' \<Longrightarrow> hist_le h h''"
  by (auto simp: hist_le_def intro: order_trans)

lemma in_interval_finite: "in_interval st x \<Longrightarrow> is_finite (S_min st) \<Longrightarrow> is_finite x"
  by (cases x; cases "S_min st"; cases "S_max st") (auto simp: in_interval_def)

lemma in_interval_bounds: "in_interval st x \<Longrightarrow> S_min st \<noteq> NaN \<and> S_max st \<noteq> NaN"
  by (cases x; cases "S_min st"; cases "S_max st") (auto simp: in_interval_def)

lemma dadd_finite_not_nan: "is_finite x \<Longrightarrow> y \<noteq> NaN \<Longrightarrow> dadd x y \<noteq> NaN"
  by (cases x; cases y) auto

lemma sweep_iter_props:
  assumes "sweep_iter gb d \<sigma> = Inr \<sigma>'"
  shows "S_min (sv_state \<sigma>') = S_min (sv_state \<sigma>)"
    and "S_max (sv_state \<sigma>') = S_max (sv_state \<sigma>)"
    and "target_bin (sv_state \<sigma>') = target_bin (sv_state \<sigma>)"
    and "cur_S \<sigma>' = cur_S \<sigma> \<or>
           (cur_S \<sigma>' = dadd (cur_S \<sigma>) (fst (dS d)) \<and>
            \<not> outside (sv_state \<sigma>) (dadd (cur_S \<sigma>) (fst (dS d))))"
    and "in_bins (cur_i \<sigma>') (hist (sv_state \<sigma>))"
    and "hist (sv_state \<sigma>') =
           (hist (sv_state \<sigma>))[nat (cur_i \<sigma>') := hist (sv_state \<sigma>) ! nat (cur_i \<sigma>') + 1]"
    and "outside (sv_state \<sigma>) (dadd (cur_S \<sigma>) (fst (dS d))) \<Longrightarrow>
           cur_S \<sigma>' = cur_S \<sigma> \<and> cur_i \<sigma>' = cur_i \<sigma> \<and> nmoves \<sigma>' = nmoves \<sigma>"
  using assms
  by (auto simp: sweep_iter_def Let_def split: if_splits)

lemma sweep_iter_in_interval:
  assumes it: "sweep_iter gb d \<sigma> = Inr \<sigma>'"
    and inr: "in_interval (sv_state \<sigma>) (cur_S \<sigma>)"
    and fin: "is_finite (S_min (sv_state \<sigma>))"
    and nn: "fst (dS d) \<noteq> NaN"
  shows "in_interval (sv_state \<sigma>') (cur_S \<sigma>')"
proof -
  note p = sweep_iter_props[OF it]
  have eq: "in_interval (sv_state \<sigma>') x = in_interval (sv_state \<sigma>) x" for x
    by (simp add: in_interval_def p(1) p(2))
  from p(4) show ?thesis
  proof
    assume "cur_S \<sigma>' = cur_S \<sigma>"
    then show ?thesis using inr eq by simp
  next
    assume a: "cur_S \<sigma>' = dadd (cur_S \<sigma>) (fst (dS d)) \<and>
            \<not> outside (sv_state \<sigma>) (dadd (cur_S \<sigma>) (fst (dS d)))"
    have "is_finite (cur_S \<sigma>)" by (rule in_interval_finite[OF inr fin])
    then have "dadd (cur_S \<sigma>) (fst (dS d)) \<noteq> NaN" using nn by (rule dadd_finite_not_nan)
    with a in_interval_bounds[OF inr]
    have "in_interval (sv_state \<sigma>) (dadd (cur_S \<sigma>) (fst (dS d)))"
      by (auto intro: not_outside_in_interval)
    then show ?thesis using a eq by simp
  qed
qed

lemma sweep_iter_hist_le:
  assumes "sweep_iter gb d \<sigma> = Inr \<sigma>'"
  shows "hist_le (hist (sv_state \<sigma>)) (hist (sv_state \<sigma>'))"
  unfolding sweep_iter_props(6)[OF assms] hist_le_def
proof (intro conjI allI impI)
  fix k assume "k < length (hist (sv_state \<sigma>))"
  then show "hist (sv_state \<sigma>) ! k \<le>
      (hist (sv_state \<sigma>))[nat (cur_i \<sigma>') := hist (sv_state \<sigma>) ! nat (cur_i \<sigma>') + 1] ! k"
    by (cases "k = nat (cur_i \<sigma>')") simp_all
qed simp

lemma sweep_loop_props:
  assumes "sweep_loop gb D n iter \<sigma> = Inr \<sigma>'"
  shows "S_min (sv_state \<sigma>') = S_min (sv_state \<sigma>) \<and> S_max (sv_state \<sigma>') = S_max (sv_state \<sigma>) \<and>
         (in_interval (sv_state \<sigma>) (cur_S \<sigma>) \<and> is_finite (S_min (sv_state \<sigma>)) \<and>
          (\<forall>k. fst (dS (D k)) \<noteq> NaN) \<longrightarrow> in_interval (sv_state \<sigma>') (cur_S \<sigma>')) \<and>
         hist_le (hist (sv_state \<sigma>)) (hist (sv_state \<sigma>'))"
  using assms
proof (induction n arbitrary: iter \<sigma>)
  case 0
  then show ?case by (simp add: hist_le_refl)
next
  case (Suc n)
  show ?case
  proof (cases "node_weight (D iter) = 0")
    case True
    then show ?thesis using Suc by simp
  next
    case False
    then obtain \<sigma>1 where s1: "sweep_iter gb (D iter) \<sigma> = Inr \<sigma>1"
      using Suc.prems by (auto split: sum.splits)
    note p = sweep_iter_props(1-3)[OF s1] sweep_iter_hist_le[OF s1]
    have q: "in_interval (sv_state \<sigma>) (cur_S \<sigma>) \<and> is_finite (S_min (sv_state \<sigma>)) \<and>
          (\<forall>k. fst (dS (D k)) \<noteq> NaN) \<longrightarrow> in_interval (sv_state \<sigma>1) (cur_S \<sigma>1)"
      using sweep_iter_in_interval[OF s1] by blast
    show ?thesis
    proof (cases "cur_i \<sigma>1 = target_bin (sv_state \<sigma>1)")
      case True
      then have "\<sigma>' = \<sigma>1" using Suc.prems False s1 by simp
      then show ?thesis using p q by simp
    next
      case nt: False
      then have "sweep_loop gb D n (Suc iter) \<sigma>1 = Inr \<sigma>'" using Suc.prems False s1 by simp
      from Suc.IH[OF this] show ?thesis using p q by (auto intro: hist_le_trans)
    qed
  qed
qed

text \<open>
  With a finite lower bound, a start inside the range and no NaN among the proposed
  entropy differences, a sweep that returns ends inside \<open>[S_min, S_max)\<close> (a proposal
  of \<open>+\<infinity>\<close> is rejected by the range test); no bin count ever decreases.
\<close>

lemma multicanonical_bounded:
  assumes run: "multicanonical_sweep gb D st = Inr ((S', n'), st')"
  shows "length (hist st') = length (hist st) \<and> (\<forall>k<length (hist st). hist st ! k \<le> hist st' ! k)"
    and "is_finite (S_min st) \<Longrightarrow> S_max st \<noteq> NaN \<Longrightarrow> mc_S st \<noteq> NaN \<Longrightarrow>
           \<forall>k. fst (dS (D k)) \<noteq> NaN \<Longrightarrow> in_interval st S'"
proof -
  define \<sigma>0 where "\<sigma>0 = \<lparr>cur_S = mc_S st, cur_i = gb (mc_S st), nmoves = 0, sv_state = st\<rparr>"
  from run have rng: "\<not> outside st (mc_S st)"
    by (auto simp: multicanonical_sweep_def split: if_splits)
  from run obtain \<sigma> where loop: "sweep_loop gb D (niter st) 0 \<sigma>0 = Inr \<sigma>"
    and res: "S' = cur_S \<sigma>" "st' = sv_state \<sigma>"
    by (auto simp: multicanonical_sweep_def \<sigma>0_def split: if_splits sum.splits)
  note lp = sweep_loop_props[OF loop]
  from lp have "hist_le (hist st) (hist st')" by (simp add: \<sigma>0_def res)
  then show "length (hist st') = length (hist st) \<and> (\<forall>k<length (hist st). hist st ! k \<le> hist st' ! k)"
    by (simp add: hist_le_def)
  assume fin: "is_finite (S_min st)" and mx: "S_max st \<noteq> NaN" and s: "mc_S st \<noteq> NaN"
    and nn: "\<forall>k. fst (dS (D k)) \<noteq> NaN"
  from fin have "S_min st \<noteq> NaN" by (cases "S_min st") auto
  with rng mx s have "in_interval st (mc_S st)" by (auto intro: not_outside_in_interval)
  with lp fin nn have "in_interval (sv_state \<sigma>) (cur_S \<sigma>)" by (simp add: \<sigma>0_def)
  moreover have "in_interval (sv_state \<sigma>) x = in_interval st x" for x
    using lp by (simp add: in_interval_def \<sigma>0_def)
  ultimately show "in_interval st S'" by (simp add: res)
qed

text \<open>
  A sweep of two iterations from entropy 1/2 in the range \<open>[0, 2)\<close>: the first proposal
  (to 3/2) is accepted, the second (to 5/2) lies outside and is rejected; bin 1 is
  counted twice.
\<close>

lemma sweep_run:
  "multicanonical_sweep two_bins up_draws sweep_start =
     Inr ((Finite (3 / 2), 1),
          sweep_start\<lparr>hist := [0, 2], dens := [Finite 0, Finite 2], mc_time := Finite 1\<rparr>)"
  by (simp add: multicanonical_sweep_def sweep_start_def up_draws_def two_bins_def sweep_iter_def
      in_bins_def Let_def numeral_2_eq_2 outside_def dsub_def ddiv_def)

lemma nan_run:
  "multicanonical_sweep two_bins nan_draws sweep_start =
     Inr ((NaN, 2),
          sweep_start\<lparr>hist := [0, 2], dens := [Finite 0, Finite 2], mc_time := Finite 1\<rparr>)"
  by (simp add: multicanonical_sweep_def sweep_start_def nan_draws_def two_bins_def sweep_iter_def
      in_bins_def Let_def numeral_2_eq_2 outside_def dsub_def ddiv_def)

text \<open>
  Claim C9 says that a proposal whose entropy \<open>S + dS\<close> lies outside \<open>[S_min, S_max)\<close> is
  rejected, so that the entropy never leaves the range on an accepted move. The range
  test \<^verbatim>\<open>nS < S_min || nS >= S_max\<close> is false when \<open>nS\<close> is a NaN: from entropy 1/2 in
  the range \<open>[0, 2)\<close>, with proposals whose difference is a NaN, the sweep accepts both
  moves and returns the entropy NaN, which is not in the range, with two moves counted.
\<close>

theorem multicanonical_nan_accepted:
  "multicanonical_sweep two_bins nan_draws sweep_start =
     Inr ((NaN, 2),
          sweep_start\<lparr>hist := [0, 2], dens := [Finite 0, Finite 2], mc_time := Finite 1\<rparr>) \<and>
   in_interval sweep_start (mc_S sweep_start) \<and>
   \<not> in_interval sweep_start NaN"
  using nan_run by (simp add: in_interval_def sweep_start_def)


subsection \<open>The proposal probability of a vertex without weighted neighbours\<close>

lemma size_t_of_add_left: "size_t_of (size_t_of x + y) = size_t_of (x + y)"
  by (simp add: size_t_of_def mod_add_left_eq)

lemma size_t_of_add_right: "size_t_of (x + size_t_of y) = size_t_of (x + y)"
  by (simp add: size_t_of_def mod_add_right_eq)

lemma snd_sum_prob:
  "snd (sum_prob st v r s c reverse Bc kout kin pw eu) = size_t_of (snd pw + eweight st (fst eu))"
  by (simp add: sum_prob_def Let_def size_t_of_add_right)

lemma snd_foldl_sum_prob:
  "size_t_of (snd (foldl (sum_prob st v r s c reverse Bc kout kin) pw eus)) =
     size_t_of (snd pw + sum_list (map (\<lambda>eu. eweight st (fst eu)) eus))"
proof (induction eus arbitrary: pw)
  case Nil
  then show ?case by simp
next
  case (Cons eu eus)
  have "size_t_of (snd (foldl (sum_prob st v r s c reverse Bc kout kin) pw (eu # eus))) =
        size_t_of (snd (sum_prob st v r s c reverse Bc kout kin pw eu) +
                   sum_list (map (\<lambda>eu. eweight st (fst eu)) eus))"
    using Cons.IH by simp
  also have "\<dots> = size_t_of (snd pw + eweight st (fst eu) + sum_list (map (\<lambda>eu. eweight st (fst eu)) eus))"
    by (simp only: snd_sum_prob size_t_of_add_left)
  finally show ?case by (simp add: add.assoc)
qed

lemma snd_foldl_sum_prob_fixed:
  "size_t_of (snd (foldl (sum_prob st v r s c reverse Bc kout kin) pw eus)) =
     snd (foldl (sum_prob st v r s c reverse Bc kout kin) pw eus)"
  if "size_t_of (snd pw) = snd pw"
  using that
proof (induction eus arbitrary: pw)
  case Nil
  then show ?case by simp
next
  case (Cons eu eus)
  have "size_t_of (snd (sum_prob st v r s c reverse Bc kout kin pw eu)) =
        snd (sum_prob st v r s c reverse Bc kout kin pw eu)"
    by (simp add: snd_sum_prob size_t_of_def)
  then show ?case using Cons.IH by simp
qed

lemma get_move_entries_frame [simp]:
  "g (get_move_entries v r nr f st) = g st"
  "eweight (get_move_entries v r nr f st) = eweight st"
  "proposal_B (get_move_entries v r nr f st) = proposal_B st"
  by (simp_all add: get_move_entries_def eweight_def proposal_B_def fun_eq_iff)

text \<open>
  Claim C10. For a vertex whose incident edges other than self-loops have total weight
  zero, \<^verbatim>\<open>get_move_prob(v, r, s, c, reverse)\<close> returns \<open>1 / B\<close> for every \<open>r\<close>, \<open>s\<close>,
  \<open>c\<close> and direction flag, where \<open>B\<close> is \<^verbatim>\<open>candidate_blocks.size() - 1\<close> when
  \<^verbatim>\<open>empty_blocks\<close> is empty and \<^verbatim>\<open>candidate_blocks.size()\<close> otherwise (as a \<^verbatim>\<open>size_t\<close>; the
  quotient is \<open>+\<infinity>\<close> when \<open>B\<close> is 0).
\<close>

theorem get_move_prob_uniform:
  assumes "sum_list (map (eweight st) (filter (\<lambda>e. target e \<noteq> v) (out_edges_range (g st) v))) +
           sum_list (map (eweight st) (filter (\<lambda>e. source e \<noteq> v) (in_edges_range (g st) v))) = 0"
  shows "fst (get_move_prob v r s c reverse st) =
           ddiv 1 (real_of_int (if empty_blocks st = []
                                then size_t_of (int (length (candidate_blocks st)) - 1)
                                else int (length (candidate_blocks st))))"
proof -
  define st1 where "st1 = get_move_entries v (b st v) (if reverse then r else s) no_filter st"
  define outs where "outs = map (\<lambda>e. (e, target e)) (filter (\<lambda>e. target e \<noteq> v) (out_edges_range (g st1) v))"
  define ins where "ins = map (\<lambda>e. (e, source e)) (filter (\<lambda>e. source e \<noteq> v) (in_edges_range (g st1) v))"
  define kout where "kout = size_t_of (out_degreeS st1 v)"
  define kin where "kin = (if is_directed (g st1) then size_t_of (in_degreeS st1 v) else kout)"
  define pw where "pw = foldl (sum_prob st1 v r s c reverse (proposal_B st1) kout kin) (Finite 0, 0) (outs @ ins)"
  have "sum_list (map (\<lambda>eu. eweight st1 (fst eu)) (outs @ ins)) = 0"
    using assms by (simp add: outs_def ins_def st1_def comp_def)
  then have "size_t_of (snd pw) = size_t_of 0"
    unfolding pw_def by (simp only: snd_foldl_sum_prob snd_conv add_0)
  moreover have "size_t_of (snd pw) = snd pw"
    unfolding pw_def by (rule snd_foldl_sum_prob_fixed) (simp add: size_t_of_def)
  ultimately have w0: "snd pw = 0" by (simp add: size_t_of_def)
  have "get_move_prob_entries v r s c reverse st1 =
          (if 0 < snd pw then ddiv_count (fst pw) (real_of_int (snd pw))
           else ddiv 1 (real_of_int (proposal_B st1)))"
    by (simp add: get_move_prob_entries_def Let_def pw_def outs_def ins_def kout_def kin_def)
  then have "get_move_prob_entries v r s c reverse st1 = ddiv 1 (real_of_int (proposal_B st1))"
    by (simp add: w0)
  moreover have "proposal_B st1 = proposal_B st" unfolding st1_def by simp
  moreover have "fst (get_move_prob v r s c reverse st) = get_move_prob_entries v r s c reverse st1"
    by (simp add: get_move_prob_def Let_def st1_def)
  ultimately have "fst (get_move_prob v r s c reverse st) = ddiv 1 (real_of_int (proposal_B st))"
    by simp
  then show ?thesis by (simp add: proposal_B_def)
qed

text \<open>Vertex 4 is isolated in the path extended by one vertex; two blocks are occupied.\<close>

theorem get_move_prob_uniform_witness:
  "sum_list (map (eweight (scenario\<lparr>g := path4\<lparr>num_vertices := 5\<rparr>\<rparr>))
      (filter (\<lambda>e. target e \<noteq> 4)
         (out_edges_range (g (scenario\<lparr>g := path4\<lparr>num_vertices := 5\<rparr>\<rparr>)) 4))) +
   sum_list (map (eweight (scenario\<lparr>g := path4\<lparr>num_vertices := 5\<rparr>\<rparr>))
      (filter (\<lambda>e. source e \<noteq> 4)
         (in_edges_range (g (scenario\<lparr>g := path4\<lparr>num_vertices := 5\<rparr>\<rparr>)) 4))) = 0 \<and>
   fst (get_move_prob 4 1 0 (1 / 2) False (scenario\<lparr>g := path4\<lparr>num_vertices := 5\<rparr>\<rparr>)) =
     Finite (1 / 2)"
proof -
  have h: "sum_list (map (eweight (scenario\<lparr>g := path4\<lparr>num_vertices := 5\<rparr>\<rparr>))
      (filter (\<lambda>e. target e \<noteq> 4)
         (out_edges_range (g (scenario\<lparr>g := path4\<lparr>num_vertices := 5\<rparr>\<rparr>)) 4))) +
   sum_list (map (eweight (scenario\<lparr>g := path4\<lparr>num_vertices := 5\<rparr>\<rparr>))
      (filter (\<lambda>e. source e \<noteq> 4)
         (in_edges_range (g (scenario\<lparr>g := path4\<lparr>num_vertices := 5\<rparr>\<rparr>)) 4))) = 0"
    by (simp add: out_edges_range_def in_edges_range_def path4_def enumerate_eq_zip)
  have "fst (get_move_prob 4 1 0 (1 / 2) False (scenario\<lparr>g := path4\<lparr>num_vertices := 5\<rparr>\<rparr>)) =
     Finite (1 / 2)"
    using get_move_prob_uniform [OF h, of 1 0 "1 / 2" False]
    by (simp add: scenario_def size_t_of_def ddiv_def)
  with h show ?thesis by blast
qed

subsection \<open>What the operations leave unchanged\<close>

lemma vweight_upd [simp]:
  "vweight (st\<lparr>wr := w\<rparr>) = vweight st"
  "vweight (st\<lparr>b := bb\<rparr>) = vweight st"
  "vweight (st\<lparr>mrs := ms\<rparr>) = vweight st"
  "vweight (st\<lparr>mrp := mp\<rparr>) = vweight st"
  "vweight (st\<lparr>mrm := mm\<rparr>) = vweight st"
  "vweight (st\<lparr>m_entries := es\<rparr>) = vweight st"
  "vweight (st\<lparr>bclabel := bl\<rparr>) = vweight st"
  "vweight (st\<lparr>empty_blocks := eb\<rparr>) = vweight st"
  "vweight (st\<lparr>empty_pos := ep\<rparr>) = vweight st"
  "vweight (st\<lparr>candidate_blocks := cb\<rparr>) = vweight st"
  "vweight (st\<lparr>candidate_pos := cp\<rparr>) = vweight st"
  by (simp_all add: vweight_def fun_eq_iff)

lemma same_nodes_refl: "same_nodes st st"
  by (simp add: same_nodes_def same_static_def)

lemma same_nodes_trans: "same_nodes st st1 \<Longrightarrow> same_nodes st1 st2 \<Longrightarrow> same_nodes st st2"
  by (simp add: same_nodes_def same_static_def)

lemma same_nodes_vweight: "same_nodes st st' \<Longrightarrow> vweight st' = vweight st"
  by (simp add: same_nodes_def same_static_def vweight_def fun_eq_iff)

lemma modify_entry_same: "same_nodes st (snd (modify_entry A x st))"
  by (simp add: modify_entry_def Let_def same_nodes_def same_static_def)

lemma add_batch_edge_same: "same_nodes st (snd (add_batch_edge vset e st))"
  by (simp add: add_batch_edge_def Let_def same_nodes_def same_static_def)

lemma remove_batch_edge_same: "same_nodes st (snd (remove_batch_edge e st))"
  by (simp add: remove_batch_edge_def Let_def same_nodes_def same_static_def)

lemma get_move_entries_same: "same_nodes st (get_move_entries v r nr f st)"
  by (simp add: get_move_entries_def same_nodes_def same_static_def)

lemma for_each_same:
  assumes "\<And>x st. same_nodes st (snd (f x st))"
  shows "same_nodes st (snd (for_each f xs st))"
proof (induction xs arbitrary: st)
  case Nil
  then show ?case by (simp add: same_nodes_refl)
next
  case (Cons x xs)
  obtain e st1 where r: "f x st = (e, st1)" by (cases "f x st")
  have s1: "same_nodes st st1" using assms[of st x] r by simp
  show ?case
  proof (cases e)
    case None
    then show ?thesis using r s1 Cons.IH[of st1] by (auto intro: same_nodes_trans)
  next
    case (Some a)
    then show ?thesis using r s1 by simp
  qed
qed

text \<open>What \<^verbatim>\<open>modify_vertex\<close> does to the node fields.\<close>

lemma modify_vertex_add:
  "\<exists>st1. same_nodes st st1 \<and>
     modify_vertex True v r f st = (None, add_partition_node v r (st1\<lparr>b := (b st1)(v := r)\<rparr>))"
proof -
  define st0 where "st0 = get_move_entries v null_group r f st"
  obtain e st1 where r: "for_each (modify_entry True) (m_entries st0) st0 = (e, st1)"
    by (cases "for_each (modify_entry True) (m_entries st0) st0")
  have "fst (for_each (modify_entry True) (m_entries st0) st0) = None"
    by (rule for_each_no_error) (rule modify_entry_add_no_error)
  then have e: "e = None" using r by simp
  have "same_nodes st0 st1"
    using for_each_same[of "modify_entry True" st0 "m_entries st0", OF modify_entry_same] r by simp
  then have "same_nodes st st1"
    using get_move_entries_same[of st v null_group r f] unfolding st0_def
    by (rule same_nodes_trans[rotated])
  moreover have "modify_vertex True v r f st = (None, add_partition_node v r (st1\<lparr>b := (b st1)(v := r)\<rparr>))"
    by (simp add: modify_vertex_def Let_def entries_op_def st0_def[symmetric] r e)
  ultimately show ?thesis by blast
qed

lemma modify_vertex_remove:
  "\<exists>st1. same_nodes st st1 \<and>
     (modify_vertex False v r f st = (None, remove_partition_node v r st1) \<or>
      (\<exists>e. modify_vertex False v r f st = (Some e, st1)))"
proof -
  define st0 where "st0 = get_move_entries v r null_group f st"
  obtain e st1 where r: "for_each (modify_entry False) (m_entries st0) st0 = (e, st1)"
    by (cases "for_each (modify_entry False) (m_entries st0) st0")
  have "same_nodes st0 st1"
    using for_each_same[of "modify_entry False" st0 "m_entries st0", OF modify_entry_same] r by simp
  then have "same_nodes st st1"
    using get_move_entries_same[of st v r null_group f] unfolding st0_def
    by (rule same_nodes_trans[rotated])
  moreover have "modify_vertex False v r f st =
      (case e of None \<Rightarrow> (None, remove_partition_node v r st1) | Some err \<Rightarrow> (Some err, st1))"
    by (simp add: modify_vertex_def Let_def entries_op_def st0_def[symmetric] r split: option.splits)
  ultimately show ?thesis by (cases e) auto
qed

lemma partition_node_frame [simp]:
  "wr (remove_partition_node v r st) = (wr st)(r := wr st r - vweight st v)"
  "b (remove_partition_node v r st) = b st"
  "vweight (remove_partition_node v r st) = vweight st"
  "vweight_map (remove_partition_node v r st) = vweight_map st"
  "is_weighted (remove_partition_node v r st) = is_weighted st"
  "bclabel (remove_partition_node v r st) = bclabel st"
  "bg_num_vertices (remove_partition_node v r st) = bg_num_vertices st"
  "wr (add_partition_node v r st) = (wr st)(r := wr st r + vweight st v)"
  "b (add_partition_node v r st) = b st"
  "vweight (add_partition_node v r st) = vweight st"
  "vweight_map (add_partition_node v r st) = vweight_map st"
  "is_weighted (add_partition_node v r st) = is_weighted st"
  "bclabel (add_partition_node v r st) = bclabel st"
  "bg_num_vertices (add_partition_node v r st) = bg_num_vertices st"
  by (simp_all add: remove_partition_node_def add_partition_node_def Let_def vweight_def fun_eq_iff)



subsection \<open>The cases of a move\<close>





subsection \<open>The block pools\<close>

lemma in_drop_conv: "x \<in> set (drop k xs) \<longleftrightarrow> (\<exists>i. k \<le> i \<and> i < length xs \<and> xs ! i = x)"
proof
  assume "x \<in> set (drop k xs)"
  then obtain j where "j < length (drop k xs)" "drop k xs ! j = x"
    by (auto simp: in_set_conv_nth)
  then have "k \<le> k + j \<and> k + j < length xs \<and> xs ! (k + j) = x" by auto
  then show "\<exists>i. k \<le> i \<and> i < length xs \<and> xs ! i = x" by blast
next
  assume "\<exists>i. k \<le> i \<and> i < length xs \<and> xs ! i = x"
  then obtain i where i: "k \<le> i" "i < length xs" "xs ! i = x" by blast
  then have "i - k < length (drop k xs)" "drop k xs ! (i - k) = x" by auto
  then show "x \<in> set (drop k xs)" by (metis nth_mem)
qed

lemma indexed_add_element:
  assumes "indexed k xs pos" "r \<notin> set (drop k xs)"
  shows "indexed k (fst (add_element (xs, pos) r)) (snd (add_element (xs, pos) r))"
  unfolding indexed_def
proof (intro allI impI)
  fix i
  assume i: "k \<le> i \<and> i < length (fst (add_element (xs, pos) r))"
  show "snd (add_element (xs, pos) r) (fst (add_element (xs, pos) r) ! i) = i"
  proof (cases "i < length xs")
    case True
    with i assms(2) have "xs ! i \<noteq> r" by (auto simp: in_drop_conv)
    with True i assms(1) show ?thesis
      by (simp add: add_element_def nth_append indexed_def)
  next
    case False
    with i have "i = length xs" by (simp add: add_element_def)
    then show ?thesis by (simp add: add_element_def)
  qed
qed

lemma drop_add_element:
  "k \<le> length xs \<Longrightarrow> set (drop k (fst (add_element (xs, pos) r))) = insert r (set (drop k xs))"
  by (simp add: add_element_def)

lemma take_add_element:
  "k \<le> length xs \<Longrightarrow> take k (fst (add_element (xs, pos) r)) = take k xs"
  by (simp add: add_element_def)

lemma remove_element_props:
  assumes ix: "indexed k xs pos" and r: "r \<in> set (drop k xs)"
  shows "indexed k (fst (remove_element (xs, pos) r)) (snd (remove_element (xs, pos) r))"
    and "set (drop k (fst (remove_element (xs, pos) r))) = set (drop k xs) - {r}"
    and "take k (fst (remove_element (xs, pos) r)) = take k xs"
proof -
  from r obtain i where i: "k \<le> i" "i < length xs" "xs ! i = r"
    by (auto simp: in_drop_conv)
  with ix have pr: "pos r = i" by (auto simp: indexed_def)
  define n where "n = length xs - 1"
  have n: "length xs = Suc n" "i \<le> n" using i by (auto simp: n_def)
  have ne: "xs \<noteq> []" using i by auto
  have lst: "last xs = xs ! n" using ne by (simp add: last_conv_nth n_def)
  define ys where "ys = butlast (xs[i := xs ! n])"
  define pos' where "pos' = pos(xs ! n := i)"
  have re: "remove_element (xs, pos) r = (ys, pos')"
    by (simp add: remove_element_def Let_def pr lst ys_def pos'_def)
  have len: "length ys = n" by (simp add: ys_def n)
  have nth: "ys ! j = (if j = i then xs ! n else xs ! j)" if "j < n" for j
    using that n by (simp add: ys_def nth_butlast nth_list_update)
  have inj: "xs ! j \<noteq> xs ! j'" if "k \<le> j" "j < length xs" "k \<le> j'" "j' < length xs" "j \<noteq> j'" for j j'
    using ix that unfolding indexed_def by metis
  show "indexed k (fst (remove_element (xs, pos) r)) (snd (remove_element (xs, pos) r))"
    unfolding re fst_conv snd_conv indexed_def
  proof (intro allI impI)
    fix j assume j: "k \<le> j \<and> j < length ys"
    then have jn: "j < n" by (simp add: len)
    show "pos' (ys ! j) = j"
    proof (cases "j = i")
      case True
      then show ?thesis using jn by (simp add: nth pos'_def)
    next
      case False
      have "xs ! j \<noteq> xs ! n" using inj[of j n] j jn i n by auto
      moreover have "pos (xs ! j) = j" using ix j jn n by (auto simp: indexed_def)
      ultimately show ?thesis using False jn by (simp add: nth pos'_def)
    qed
  qed
  show "set (drop k (fst (remove_element (xs, pos) r))) = set (drop k xs) - {r}"
    unfolding re fst_conv
  proof (intro set_eqI iffI)
    fix x assume "x \<in> set (drop k ys)"
    then obtain j where j: "k \<le> j" "j < n" "ys ! j = x"
      by (auto simp: in_drop_conv len)
    show "x \<in> set (drop k xs) - {r}"
    proof (cases "j = i")
      case True
      then have "x = xs ! n" using j by (simp add: nth)
      moreover have "xs ! n \<noteq> xs ! i" using inj[of n i] i n j True by auto
      moreover have "k \<le> n \<and> n < length xs" using i n by auto
      ultimately have "(\<exists>m. k \<le> m \<and> m < length xs \<and> xs ! m = x) \<and> x \<noteq> r"
        using i by metis
      then show ?thesis by (simp add: in_drop_conv)
    next
      case False
      then have "x = xs ! j" using j by (simp add: nth)
      moreover have "xs ! j \<noteq> xs ! i" using inj[of j i] i n j False by auto
      moreover have "k \<le> j \<and> j < length xs" using j n by auto
      ultimately have "(\<exists>m. k \<le> m \<and> m < length xs \<and> xs ! m = x) \<and> x \<noteq> r"
        using i by metis
      then show ?thesis by (simp add: in_drop_conv)
    qed
  next
    fix x assume "x \<in> set (drop k xs) - {r}"
    then obtain j where j: "k \<le> j" "j < length xs" "xs ! j = x" "x \<noteq> r"
      by (auto simp: in_drop_conv)
    then have ji: "j \<noteq> i" using i by auto
    show "x \<in> set (drop k ys)"
    proof (cases "j = n")
      case True
      then have "i < n" using ji n by auto
      then have "ys ! i = x" using True j by (simp add: nth)
      then have "\<exists>m. k \<le> m \<and> m < length ys \<and> ys ! m = x"
        using i \<open>i < n\<close> len by metis
      then show ?thesis by (simp add: in_drop_conv)
    next
      case False
      then have "j < n" using j n by auto
      then have "ys ! j = x" using ji j by (simp add: nth)
      then have "\<exists>m. k \<le> m \<and> m < length ys \<and> ys ! m = x"
        using j \<open>j < n\<close> len by metis
      then show ?thesis by (simp add: in_drop_conv)
    qed
  qed
  show "take k (fst (remove_element (xs, pos) r)) = take k xs"
    unfolding re fst_conv
  proof (rule nth_equalityI)
    show "length (take k ys) = length (take k xs)" using i n len by auto
  next
    fix j assume "j < length (take k ys)"
    then have "j < k" "j < n" by (auto simp: len)
    then show "take k ys ! j = take k xs ! j" using i by (simp add: nth)
  qed
qed

lemma pools_wf_membership:
  assumes "pools_wf st" shows "pool_membership st"
proof -
  have t: "take 1 (candidate_blocks st) = [null_group]" using assms by (simp add: pools_wf_def)
  then have ne: "candidate_blocks st \<noteq> []" by auto
  then have hd: "candidate_blocks st ! 0 = null_group" using t
    by (cases "candidate_blocks st") auto
  have split: "set (candidate_blocks st) = insert null_group (set (drop 1 (candidate_blocks st)))"
    using t ne by (cases "candidate_blocks st") auto
  have "r \<in> set (candidate_blocks st) \<longleftrightarrow> r \<in> set (drop 1 (candidate_blocks st))"
    if "r < bg_num_vertices st" for r
  proof -
    have "r \<noteq> null_group" using that assms by (auto simp: pools_wf_def)
    then show ?thesis using split by auto
  qed
  then show ?thesis using assms ne hd by (auto simp: pools_wf_def pool_membership_def)
qed

lemma remove_partition_node_wf:
  assumes wf: "pools_wf st" and r: "r < bg_num_vertices st"
    and vw: "0 \<le> vweight st v" "vweight st v \<le> wr st r"
  shows "pools_wf (remove_partition_node v r st)"
proof (cases "0 < vweight st v \<and> wr st r - vweight st v = 0")
  case False
  then have eq: "remove_partition_node v r st = st\<lparr>wr := (wr st)(r := wr st r - vweight st v)\<rparr>"
    by (auto simp add: remove_partition_node_def Let_def)
  show ?thesis
  proof (cases "vweight st v = 0")
    case True
    then show ?thesis using wf by (simp add: eq pools_wf_def)
  next
    case nz: False
    then have "0 < wr st r - vweight st v" "0 < wr st r" using False vw by auto
    then show ?thesis using wf r by (auto simp: eq pools_wf_def)
  qed
next
  case True
  then have pos: "0 < wr st r" by auto
  then have rc: "r \<in> set (drop 1 (candidate_blocks st))" and re: "r \<notin> set (drop 0 (empty_blocks st))"
    using wf r by (auto simp: pools_wf_def)
  have ic: "indexed 1 (candidate_blocks st) (candidate_pos st)"
    and ie: "indexed 0 (empty_blocks st) (empty_pos st)"
    using wf by (auto simp: pools_wf_def)
  let ?c = "remove_element (candidate_blocks st, candidate_pos st) r"
  let ?e = "add_element (empty_blocks st, empty_pos st) r"
  have eq: "remove_partition_node v r st =
      st\<lparr>wr := (wr st)(r := 0), candidate_blocks := fst ?c, candidate_pos := snd ?c,
         empty_blocks := fst ?e, empty_pos := snd ?e\<rparr>"
    using True by (simp add: remove_partition_node_def Let_def)
  have c1: "indexed 1 (fst ?c) (snd ?c)"
    and c2: "set (drop 1 (fst ?c)) = set (drop 1 (candidate_blocks st)) - {r}"
    and c3: "take 1 (fst ?c) = take 1 (candidate_blocks st)"
    using remove_element_props[OF ic rc] by auto
  have e1: "indexed 0 (fst ?e) (snd ?e)" using indexed_add_element[OF ie re] .
  have e2: "set (fst ?e) = insert r (set (empty_blocks st))" by (simp add: add_element_def)
  show ?thesis unfolding eq pools_wf_def using wf c1 c2 c3 e1 e2
    by (auto simp: pools_wf_def)
qed

lemma add_partition_node_wf:
  assumes wf: "pools_wf st" and r: "r < bg_num_vertices st" and vw: "0 \<le> vweight st v"
  shows "pools_wf (add_partition_node v r st)"
proof (cases "0 < vweight st v \<and> wr st r = 0")
  case False
  then have eq: "add_partition_node v r st = st\<lparr>wr := (wr st)(r := wr st r + vweight st v)\<rparr>"
    by (auto simp add: add_partition_node_def Let_def)
  show ?thesis
  proof (cases "vweight st v = 0")
    case True
    then show ?thesis using wf by (simp add: eq pools_wf_def)
  next
    case nz: False
    moreover have "0 \<le> wr st r" using wf r by (simp add: pools_wf_def)
    ultimately have "0 < wr st r + vweight st v" "0 < wr st r" using False vw by auto
    then show ?thesis using wf r by (auto simp: eq pools_wf_def)
  qed
next
  case True
  then have re: "r \<in> set (drop 0 (empty_blocks st))" and rc: "r \<notin> set (drop 1 (candidate_blocks st))"
    using wf r by (auto simp: pools_wf_def)
  have ic: "indexed 1 (candidate_blocks st) (candidate_pos st)"
    and ie: "indexed 0 (empty_blocks st) (empty_pos st)"
    and tk: "take 1 (candidate_blocks st) = [null_group]"
    using wf by (auto simp: pools_wf_def)
  let ?e = "remove_element (empty_blocks st, empty_pos st) r"
  let ?c = "add_element (candidate_blocks st, candidate_pos st) r"
  have eq: "add_partition_node v r st =
      st\<lparr>wr := (wr st)(r := vweight st v), empty_blocks := fst ?e, empty_pos := snd ?e,
         candidate_blocks := fst ?c, candidate_pos := snd ?c\<rparr>"
    using True by (simp add: add_partition_node_def Let_def)
  have len: "1 \<le> length (candidate_blocks st)" using tk by (cases "candidate_blocks st") auto
  have e1: "indexed 0 (fst ?e) (snd ?e)"
    and e2: "set (drop 0 (fst ?e)) = set (drop 0 (empty_blocks st)) - {r}"
    using remove_element_props[OF ie re] by auto
  have c1: "indexed 1 (fst ?c) (snd ?c)" using indexed_add_element[OF ic rc] .
  have c2: "set (drop 1 (fst ?c)) = insert r (set (drop 1 (candidate_blocks st)))"
    using drop_add_element[OF len] .
  have c3: "take 1 (fst ?c) = take 1 (candidate_blocks st)" using take_add_element[OF len] .
  show ?thesis unfolding eq pools_wf_def using wf True c1 c2 c3 e1 e2
    by (auto simp: pools_wf_def)
qed

lemma same_nodes_pools_wf: "same_nodes st st' \<Longrightarrow> pools_wf st' = pools_wf st"
  by (simp add: same_nodes_def same_static_def pools_wf_def)

lemma same_nodes_node_counts: "same_nodes st st' \<Longrightarrow> node_counts P st' = node_counts P st"
proof -
  assume s: "same_nodes st st'"
  then have "vweight st' = vweight st" by (rule same_nodes_vweight)
  moreover have "wr st' = wr st" "b st' = b st" "bg_num_vertices st' = bg_num_vertices st"
    using s by (auto simp: same_nodes_def same_static_def)
  ultimately show ?thesis by (simp add: node_counts_def)
qed

lemma node_counts_bounds:
  assumes "node_counts P st"
  shows "r < bg_num_vertices st \<Longrightarrow> 0 \<le> wr st r"
    and "v \<in> P \<Longrightarrow> 0 \<le> vweight st v \<and> vweight st v \<le> wr st (b st v) \<and> b st v < bg_num_vertices st"
proof -
  have fin: "finite P" and nn: "\<And>u. u \<in> P \<Longrightarrow> 0 \<le> vweight st u"
    and rng: "\<And>u. u \<in> P \<Longrightarrow> b st u < bg_num_vertices st"
    and w: "\<And>r. r < bg_num_vertices st \<Longrightarrow> wr st r = sum (vweight st) {u \<in> P. b st u = r}"
    using assms by (auto simp: node_counts_def)
  show "0 \<le> wr st r" if "r < bg_num_vertices st"
  proof -
    have "0 \<le> sum (vweight st) {u \<in> P. b st u = r}"
      by (rule sum_nonneg) (use nn in auto)
    then show ?thesis using w[OF that] by simp
  qed
  show "0 \<le> vweight st v \<and> vweight st v \<le> wr st (b st v) \<and> b st v < bg_num_vertices st"
    if "v \<in> P"
  proof -
    have "vweight st v \<le> sum (vweight st) {u \<in> P. b st u = b st v}"
      using that fin nn by (intro member_le_sum) auto
    then show ?thesis using that nn rng w[OF rng[OF that]] by simp
  qed
qed

lemma node_counts_remove:
  assumes nc: "node_counts P st" and v: "v \<in> P"
  shows "node_counts (P - {v}) (remove_partition_node v (b st v) st)"
proof -
  have fin: "finite P" and nn: "\<And>u. u \<in> P \<Longrightarrow> 0 \<le> vweight st u"
    and rng: "\<And>u. u \<in> P \<Longrightarrow> b st u < bg_num_vertices st"
    and w: "\<And>r. r < bg_num_vertices st \<Longrightarrow> wr st r = sum (vweight st) {u \<in> P. b st u = r}"
    using nc by (auto simp: node_counts_def)
  have split: "{u \<in> P. b st u = b st v} = insert v {u \<in> P - {v}. b st u = b st v}"
    using v by auto
  have nin: "v \<notin> {u \<in> P - {v}. b st u = b st v}" by simp
  have fin2: "finite {u \<in> P - {v}. b st u = b st v}" using fin by simp
  have s: "sum (vweight st) {u \<in> P. b st u = b st v} =
        vweight st v + sum (vweight st) {u \<in> P - {v}. b st u = b st v}"
    unfolding split by (rule sum.insert[OF fin2 nin])
  have o: "{u \<in> P - {v}. b st u = r} = {u \<in> P. b st u = r}" if "r \<noteq> b st v" for r
    using that by auto
  have "wr (remove_partition_node v (b st v) st) r =
        sum (vweight st) {u \<in> P - {v}. b st u = r}" if "r < bg_num_vertices st" for r
  proof (cases "r = b st v")
    case True
    then show ?thesis using w[OF that] s by simp
  next
    case False
    then show ?thesis using w[OF that] o[OF False] by simp
  qed
  then show ?thesis
    unfolding node_counts_def using fin nn rng by simp
qed

lemma node_counts_add:
  assumes nc: "node_counts P st" and v: "v \<notin> P" and vw: "0 \<le> vweight st v"
    and r: "r < bg_num_vertices st"
  shows "node_counts (insert v P) (add_partition_node v r (st\<lparr>b := (b st)(v := r)\<rparr>))"
proof -
  have fin: "finite P" and nn: "\<And>u. u \<in> P \<Longrightarrow> 0 \<le> vweight st u"
    and rng: "\<And>u. u \<in> P \<Longrightarrow> b st u < bg_num_vertices st"
    and w: "\<And>r. r < bg_num_vertices st \<Longrightarrow> wr st r = sum (vweight st) {u \<in> P. b st u = r}"
    using nc by (auto simp: node_counts_def)
  have s1: "{u \<in> insert v P. ((b st)(v := r)) u = r} = insert v {u \<in> P. b st u = r}"
    using v by auto
  have s2: "{u \<in> insert v P. ((b st)(v := r)) u = r'} = {u \<in> P. b st u = r'}" if "r' \<noteq> r" for r'
    using v that by auto
  have nin: "v \<notin> {u \<in> P. b st u = r}" using v by simp
  have fin2: "finite {u \<in> P. b st u = r}" using fin by simp
  have s: "sum (vweight st) (insert v {u \<in> P. b st u = r}) =
        vweight st v + sum (vweight st) {u \<in> P. b st u = r}"
    by (rule sum.insert[OF fin2 nin])
  let ?st' = "add_partition_node v r (st\<lparr>b := (b st)(v := r)\<rparr>)"
  have wr': "wr ?st' r' = sum (vweight st) {u \<in> insert v P. ((b st)(v := r)) u = r'}"
    if "r' < bg_num_vertices st" for r'
  proof (cases "r' = r")
    case True
    then show ?thesis using w[OF that] s s1 by simp
  next
    case False
    then show ?thesis using w[OF that] s2[OF False] by simp
  qed
  have b': "((b st)(v := r)) u < bg_num_vertices st" if "u \<in> insert v P" for u
    using that rng r by (cases "u = v") auto
  have nn': "0 \<le> vweight st u" if "u \<in> insert v P" for u
    using that nn vw by (cases "u = v") auto
  show ?thesis
    unfolding node_counts_def using fin wr' b' nn' by simp
qed

text \<open>The invariant across \<^verbatim>\<open>modify_vertex\<close>.\<close>

lemma same_static_partition_node:
  "same_static st (add_partition_node v r st)"
  "same_static st (remove_partition_node v r st)"
  "same_static st (st\<lparr>b := bb\<rparr>)"
  by (simp_all add: same_static_def add_partition_node_def remove_partition_node_def Let_def)

lemma same_static_trans: "same_static st st1 \<Longrightarrow> same_static st1 st2 \<Longrightarrow> same_static st st2"
  by (simp add: same_static_def)

lemma same_nodes_static: "same_nodes st st' \<Longrightarrow> same_static st st'"
  by (simp add: same_nodes_def)

lemma pools_wf_b_upd: "pools_wf (st\<lparr>b := bb\<rparr>) = pools_wf st"
  by (simp add: pools_wf_def)

lemma add_vertex_inv:
  assumes "pools_wf st" "node_counts P st" "v \<notin> P" "0 \<le> vweight st v" "r < bg_num_vertices st"
  shows "pools_wf (snd (modify_vertex True v r f st)) \<and>
         node_counts (insert v P) (snd (modify_vertex True v r f st)) \<and>
         same_static st (snd (modify_vertex True v r f st))"
proof -
  obtain st1 where s: "same_nodes st st1"
    and m: "modify_vertex True v r f st = (None, add_partition_node v r (st1\<lparr>b := (b st1)(v := r)\<rparr>))"
    using modify_vertex_add by blast
  define st2 where "st2 = st1\<lparr>b := (b st1)(v := r)\<rparr>"
  have wf1: "pools_wf st1" using assms(1) same_nodes_pools_wf[OF s] by simp
  have nc1: "node_counts P st1" using assms(2) same_nodes_node_counts[OF s] by simp
  have vw1: "0 \<le> vweight st1 v" using assms(4) same_nodes_vweight[OF s] by simp
  have B1: "r < bg_num_vertices st1" using assms(5) s by (simp add: same_nodes_def same_static_def)
  have wf2: "pools_wf st2" unfolding st2_def using wf1 by (simp only: pools_wf_b_upd)
  have vw2: "0 \<le> vweight st2 v" unfolding st2_def using vw1 by simp
  have B2: "r < bg_num_vertices st2" unfolding st2_def using B1 by simp
  have p: "pools_wf (add_partition_node v r st2)"
    by (rule add_partition_node_wf[OF wf2 B2 vw2])
  have n: "node_counts (insert v P) (add_partition_node v r st2)"
    unfolding st2_def by (rule node_counts_add[OF nc1 assms(3) vw1 B1])
  have "same_static st st2" unfolding st2_def
    by (rule same_static_trans[OF same_nodes_static[OF s] same_static_partition_node(3)])
  then have t: "same_static st (add_partition_node v r st2)"
    by (rule same_static_trans[OF _ same_static_partition_node(1)])
  have r: "snd (modify_vertex True v r f st) = add_partition_node v r st2"
    unfolding m st2_def by (rule snd_conv)
  show ?thesis unfolding r using p n t by blast
qed

lemma remove_vertex_inv:
  assumes "pools_wf st" "node_counts P st" "v \<in> P"
  shows "(fst (modify_vertex False v (b st v) f st) = None \<and>
          pools_wf (snd (modify_vertex False v (b st v) f st)) \<and>
          node_counts (P - {v}) (snd (modify_vertex False v (b st v) f st)) \<or>
          fst (modify_vertex False v (b st v) f st) \<noteq> None \<and>
          pools_wf (snd (modify_vertex False v (b st v) f st)) \<and>
          node_counts P (snd (modify_vertex False v (b st v) f st))) \<and>
         same_static st (snd (modify_vertex False v (b st v) f st))"
proof -
  obtain st1 where s: "same_nodes st st1"
    and m: "modify_vertex False v (b st v) f st = (None, remove_partition_node v (b st v) st1) \<or>
      (\<exists>e. modify_vertex False v (b st v) f st = (Some e, st1))"
    using modify_vertex_remove by blast
  have wf1: "pools_wf st1" using assms(1) same_nodes_pools_wf[OF s] by simp
  have nc1: "node_counts P st1" using assms(2) same_nodes_node_counts[OF s] by simp
  have b1: "b st1 = b st" using s by (simp add: same_nodes_def)
  have ss: "same_static st st1" by (rule same_nodes_static[OF s])
  from m show ?thesis
  proof
    assume ok: "modify_vertex False v (b st v) f st = (None, remove_partition_node v (b st v) st1)"
    have bd: "0 \<le> vweight st1 v \<and> vweight st1 v \<le> wr st1 (b st1 v) \<and> b st1 v < bg_num_vertices st1"
      by (rule node_counts_bounds(2)[OF nc1 assms(3)])
    have p: "pools_wf (remove_partition_node v (b st1 v) st1)"
      by (rule remove_partition_node_wf[OF wf1]) (use bd in simp_all)
    have n: "node_counts (P - {v}) (remove_partition_node v (b st1 v) st1)"
      by (rule node_counts_remove[OF nc1 assms(3)])
    have t: "same_static st (remove_partition_node v (b st1 v) st1)"
      by (rule same_static_trans[OF ss same_static_partition_node(2)])
    have "fst (modify_vertex False v (b st v) f st) = None"
      "snd (modify_vertex False v (b st v) f st) = remove_partition_node v (b st1 v) st1"
      unfolding ok b1 by simp_all
    then show ?thesis using p n t by presburger
  next
    assume "\<exists>e. modify_vertex False v (b st v) f st = (Some e, st1)"
    then obtain e where "modify_vertex False v (b st v) f st = (Some e, st1)" by blast
    then have "fst (modify_vertex False v (b st v) f st) \<noteq> None"
      "snd (modify_vertex False v (b st v) f st) = st1" by simp_all
    then show ?thesis using wf1 nc1 ss by presburger
  qed
qed

text \<open>The level that \<^verbatim>\<open>move_vertex\<close> leaves behind.\<close>

lemma propagate_level:
  "fst (snd (propagate_coupled v r nr st cs)) = st \<or>
   fst (snd (propagate_coupled v r nr st cs)) = st\<lparr>bclabel := (bclabel st)(nr := bclabel st r)\<rparr>"
proof -
  obtain e1 cs1 where a:
    "(if wr st r = 0 then coupled_vacate r (bclabel st r) cs else (None, cs)) = (e1, cs1)"
    by (cases "if wr st r = 0 then coupled_vacate r (bclabel st r) cs else (None, cs)")
  obtain e2 cs2 where b: "coupled_occupy nr (bclabel st r) cs1 = (e2, cs2)"
    by (cases "coupled_occupy nr (bclabel st r) cs1")
  show ?thesis
    by (cases e1; cases e2) (simp_all add: propagate_coupled_def a b)
qed

lemma move_vertex_level:
  assumes "r \<noteq> nr" "allow_move st r nr True" "remove_vertex v r st = (e1, st1)"
  shows "(e1 \<noteq> None \<longrightarrow> level (snd (move_vertex v r nr (BlockState st up))) = st1) \<and>
         (e1 = None \<longrightarrow>
            level (snd (move_vertex v r nr (BlockState st up))) = snd (add_vertex v nr st1) \<or>
            level (snd (move_vertex v r nr (BlockState st up))) =
              (snd (add_vertex v nr st1))\<lparr>bclabel :=
                 (bclabel (snd (add_vertex v nr st1)))(nr := bclabel (snd (add_vertex v nr st1)) r)\<rparr>)"
proof (cases e1)
  case (Some e)
  then show ?thesis using assms by (simp add: move_vertex_def Let_def)
next
  case None
  obtain st2 where ad: "add_vertex v nr st1 = (None, st2)"
    using add_vertex_no_error[of v nr no_filter st1]
    by (cases "add_vertex v nr st1") (auto simp: add_vertex_def)
  show ?thesis
  proof (cases up)
    case n: None
    then show ?thesis using assms None ad by (simp add: move_vertex_def Let_def)
  next
    case (Some Pt)
    obtain e3 st3 cs3 where pr: "propagate_coupled v r nr st2 (level Pt) = (e3, st3, cs3)"
      by (cases "propagate_coupled v r nr st2 (level Pt)") auto
    have "level (snd (move_vertex v r nr (BlockState st up))) = st3"
      using assms None ad Some pr by (simp add: move_vertex_def Let_def)
    moreover have "st3 = st2 \<or> st3 = st2\<lparr>bclabel := (bclabel st2)(nr := bclabel st2 r)\<rparr>"
      using propagate_level[of v r nr st2 "level Pt"] pr by simp
    ultimately show ?thesis using None ad by auto
  qed
qed

lemma move_vertex_unchanged:
  "r = nr \<or> \<not> allow_move st r nr True \<Longrightarrow>
     level (snd (move_vertex v r nr (BlockState st up))) = st"
  by (auto simp: move_vertex_def Let_def)

lemma bclabel_upd_inv:
  "pools_wf (st\<lparr>bclabel := bl\<rparr>) = pools_wf st"
  "node_counts P (st\<lparr>bclabel := bl\<rparr>) = node_counts P st"
  "same_static st (st\<lparr>bclabel := bl\<rparr>)"
  by (simp_all add: pools_wf_def node_counts_def same_static_def)

lemma same_static_refl: "same_static st st"
  by (simp add: same_static_def)

lemma same_static_vweight: "same_static st st' \<Longrightarrow> vweight st' = vweight st"
  by (simp add: same_static_def vweight_def fun_eq_iff)

lemma same_static_B: "same_static st st' \<Longrightarrow> bg_num_vertices st' = bg_num_vertices st"
  by (simp add: same_static_def)

lemma move_vertex_inv:
  assumes wf: "pools_wf st" and nc: "node_counts P st" and v: "v \<in> P"
    and nr: "nr < bg_num_vertices st"
  shows "pools_wf (level (snd (move_vertex v (b st v) nr (BlockState st up)))) \<and>
         node_counts P (level (snd (move_vertex v (b st v) nr (BlockState st up)))) \<and>
         same_static st (level (snd (move_vertex v (b st v) nr (BlockState st up))))"
proof (cases "b st v = nr \<or> \<not> allow_move st (b st v) nr True")
  case True
  then show ?thesis using wf nc move_vertex_unchanged[of "b st v" nr st v up]
    by (simp add: same_static_refl)
next
  case False
  obtain e1 st1 where rm: "remove_vertex v (b st v) st = (e1, st1)"
    by (cases "remove_vertex v (b st v) st")
  note lv = move_vertex_level[OF _ _ rm, of nr up]
  note ri = remove_vertex_inv[OF wf nc v, of no_filter, folded remove_vertex_def, unfolded rm fst_conv snd_conv]
  show ?thesis
  proof (cases e1)
    case (Some e)
    then have "level (snd (move_vertex v (b st v) nr (BlockState st up))) = st1"
      using lv False by simp
    then show ?thesis using ri Some by simp
  next
    case None
    then have i1: "pools_wf st1" "node_counts (P - {v}) st1" "same_static st st1"
      using ri by auto
    have vw: "0 \<le> vweight st1 v"
      using node_counts_bounds(2)[OF nc v] same_static_vweight[OF i1(3)] by simp
    have B1: "nr < bg_num_vertices st1" using nr same_static_B[OF i1(3)] by simp
    have nin: "v \<notin> P - {v}" by simp
    note ai = add_vertex_inv[OF i1(1) i1(2) nin vw B1, of no_filter, folded add_vertex_def]
    have P: "insert v (P - {v}) = P" using v by auto
    let ?st2 = "snd (add_vertex v nr st1)"
    have i2: "pools_wf ?st2" "node_counts P ?st2" "same_static st ?st2"
      using ai P same_static_trans[OF i1(3)] by auto
    have "level (snd (move_vertex v (b st v) nr (BlockState st up))) = ?st2 \<or>
          level (snd (move_vertex v (b st v) nr (BlockState st up))) =
            ?st2\<lparr>bclabel := (bclabel ?st2)(nr := bclabel ?st2 (b st v))\<rparr>"
      using lv False None by simp
    then show ?thesis
    proof
      assume "level (snd (move_vertex v (b st v) nr (BlockState st up))) = ?st2"
      then show ?thesis using i2 by simp
    next
      assume a: "level (snd (move_vertex v (b st v) nr (BlockState st up))) =
            ?st2\<lparr>bclabel := (bclabel ?st2)(nr := bclabel ?st2 (b st v))\<rparr>"
      show ?thesis unfolding a
        using i2 same_static_trans[OF i2(3) bclabel_upd_inv(3)]
        by (simp only: bclabel_upd_inv)
    qed
  qed
qed

text \<open>The loops of the bulk operations.\<close>

lemma for_each_add_inv:
  assumes "distinct (map fst xs)" "fst ` set xs \<inter> P = {}"
    "\<forall>x\<in>set xs. snd x < bg_num_vertices st \<and> 0 \<le> vweight st (fst x)"
    "pools_wf st" "node_counts P st"
  shows "pools_wf (snd (for_each (\<lambda>vr. modify_vertex True (fst vr) (snd vr) f) xs st)) \<and>
         node_counts (fst ` set xs \<union> P)
           (snd (for_each (\<lambda>vr. modify_vertex True (fst vr) (snd vr) f) xs st))"
  using assms
proof (induction xs arbitrary: P st)
  case Nil
  then show ?case by simp
next
  case (Cons x xs)
  obtain st1 where m: "modify_vertex True (fst x) (snd x) f st = (None, st1)"
    using add_vertex_no_error[of "fst x" "snd x" f st]
    by (cases "modify_vertex True (fst x) (snd x) f st") auto
  have nin: "fst x \<notin> P" using Cons.prems(2) by auto
  have vw: "0 \<le> vweight st (fst x)" and B: "snd x < bg_num_vertices st"
    using Cons.prems(3) by auto
  note ai = add_vertex_inv[OF Cons.prems(4) Cons.prems(5) nin vw B, of f, unfolded m snd_conv]
  have st: "same_static st st1" using ai by simp
  have a: "distinct (map fst xs)" using Cons.prems(1) by simp
  have b: "fst ` set xs \<inter> insert (fst x) P = {}" using Cons.prems(1,2) by auto
  have c: "\<forall>y\<in>set xs. snd y < bg_num_vertices st1 \<and> 0 \<le> vweight st1 (fst y)"
    using Cons.prems(3) same_static_vweight[OF st] same_static_B[OF st] by simp
  have e: "fst ` set xs \<union> insert (fst x) P = fst ` set (x # xs) \<union> P" by auto
  have "pools_wf (snd (for_each (\<lambda>vr. modify_vertex True (fst vr) (snd vr) f) xs st1)) \<and>
        node_counts (fst ` set xs \<union> insert (fst x) P)
          (snd (for_each (\<lambda>vr. modify_vertex True (fst vr) (snd vr) f) xs st1))"
    using Cons.IH[OF a b c] ai by blast
  then show ?case unfolding e by (simp add: m)
qed

lemma for_each_remove_inv:
  assumes "distinct xs" "set xs \<subseteq> P" "pools_wf st" "node_counts P st"
  shows "pools_wf (snd (for_each (\<lambda>v st'. modify_vertex False v (b st' v) f st') xs st)) \<and>
         (\<exists>P'. P' \<subseteq> P \<and>
            node_counts P' (snd (for_each (\<lambda>v st'. modify_vertex False v (b st' v) f st') xs st)))"
  using assms
proof (induction xs arbitrary: P st)
  case Nil
  then show ?case by auto
next
  case (Cons x xs)
  obtain e st1 where m: "modify_vertex False x (b st x) f st = (e, st1)"
    by (cases "modify_vertex False x (b st x) f st")
  have xP: "x \<in> P" using Cons.prems(2) by simp
  note ri = remove_vertex_inv[OF Cons.prems(3) Cons.prems(4) xP, of f, unfolded m fst_conv snd_conv]
  show ?case
  proof (cases e)
    case (Some err)
    then have "pools_wf st1 \<and> node_counts P st1" using ri by simp
    then show ?thesis using m Some by auto
  next
    case None
    then have i: "pools_wf st1" "node_counts (P - {x}) st1" using ri by auto
    have a: "distinct xs" "set xs \<subseteq> P - {x}" using Cons.prems(1,2) by auto
    have "pools_wf (snd (for_each (\<lambda>v st'. modify_vertex False v (b st' v) f st') xs st1)) \<and>
          (\<exists>P'. P' \<subseteq> P - {x} \<and>
             node_counts P' (snd (for_each (\<lambda>v st'. modify_vertex False v (b st' v) f st') xs st1)))"
      by (rule Cons.IH[OF a i])
    then show ?thesis using m None by auto
  qed
qed

lemma for_each_move_inv:
  assumes "\<forall>p\<in>set ps. fst p \<in> P \<and> snd p < bg_num_vertices (level S)"
    "pools_wf (level S)" "node_counts P (level S)"
  shows "pools_wf (level (snd (for_each (\<lambda>p. move_vertex2 (fst p) (snd p)) ps S))) \<and>
         node_counts P (level (snd (for_each (\<lambda>p. move_vertex2 (fst p) (snd p)) ps S)))"
  using assms
proof (induction ps arbitrary: S)
  case Nil
  then show ?case by simp
next
  case (Cons p ps)
  obtain e S1 where m: "move_vertex2 (fst p) (snd p) S = (e, S1)"
    by (cases "move_vertex2 (fst p) (snd p) S")
  have S: "S = BlockState (level S) (coupled_state S)" by simp
  have pP: "fst p \<in> P" "snd p < bg_num_vertices (level S)" using Cons.prems(1) by auto
  have "move_vertex (fst p) (b (level S) (fst p)) (snd p) (BlockState (level S) (coupled_state S)) = (e, S1)"
    using m by (simp add: move_vertex2_def)
  note mi = move_vertex_inv[OF Cons.prems(2) Cons.prems(3) pP, of "coupled_state S", unfolded this snd_conv]
  show ?case
  proof (cases e)
    case (Some err)
    then show ?thesis using mi m by simp
  next
    case None
    have a: "\<forall>q\<in>set ps. fst q \<in> P \<and> snd q < bg_num_vertices (level S1)"
      using Cons.prems(1) same_static_B[of "level S" "level S1"] mi by simp
    have "pools_wf (level (snd (for_each (\<lambda>p. move_vertex2 (fst p) (snd p)) ps S1))) \<and>
          node_counts P (level (snd (for_each (\<lambda>p. move_vertex2 (fst p) (snd p)) ps S1)))"
      using Cons.IH[OF a] mi by blast
    then show ?thesis using m None by simp
  qed
qed

lemma set_alist_update_subset: "set (AList.update k v al) \<subseteq> insert (k, v) (set al)"
  by (induction al) auto

lemma vset_props:
  assumes "distinct (map fst m)" "fst ` set m \<subseteq> A" "snd ` set m \<subseteq> C"
    "fst ` set xs \<subseteq> A" "snd ` set xs \<subseteq> C"
  shows "distinct (map fst (foldl (\<lambda>m vr. AList.update (fst vr) (snd vr) m) m xs)) \<and>
         fst ` set (foldl (\<lambda>m vr. AList.update (fst vr) (snd vr) m) m xs) \<subseteq> A \<and>
         snd ` set (foldl (\<lambda>m vr. AList.update (fst vr) (snd vr) m) m xs) \<subseteq> C"
  using assms
proof (induction xs arbitrary: m)
  case Nil
  then show ?case by simp
next
  case (Cons x xs)
  have s: "set (AList.update (fst x) (snd x) m) \<subseteq> insert (fst x, snd x) (set m)"
    by (rule set_alist_update_subset)
  have a: "distinct (map fst (AList.update (fst x) (snd x) m))"
    using Cons.prems(1) by (rule distinct_update)
  have b: "fst ` set (AList.update (fst x) (snd x) m) \<subseteq> A"
    using s Cons.prems(2,4) by fastforce
  have c: "snd ` set (AList.update (fst x) (snd x) m) \<subseteq> C"
    using s Cons.prems(3,5) by fastforce
  have d: "fst ` set xs \<subseteq> A" "snd ` set xs \<subseteq> C" using Cons.prems(4,5) by auto
  show ?case using Cons.IH[OF a b c d] by simp
qed

lemma add_vertices_pools:
  assumes "pools_wf st" "node_counts P st" "set vs \<inter> P = {}"
    "\<forall>u\<in>set vs. 0 \<le> vweight st u" "\<forall>r\<in>set rs. r < bg_num_vertices st"
  shows "pools_wf (snd (add_vertices vs rs st)) \<and> (\<exists>P'. node_counts P' (snd (add_vertices vs rs st)))"
proof (cases "length vs = length rs")
  case False
  then show ?thesis using assms(1,2) by (auto simp: add_vertices_def)
next
  case True
  define vset where "vset = foldl (\<lambda>m vr. AList.update (fst vr) (snd vr) m) [] (zip vs rs)"
  define eset where "eset = batch_edges (g st) (\<lambda>u. map_of vset u \<noteq> None) (map fst vset)"
  define F where "F = (\<lambda>vr. modify_vertex True (fst vr) (snd vr) (in_eset eset))"
  have z: "fst ` set (zip vs rs) \<subseteq> set vs" "snd ` set (zip vs rs) \<subseteq> set rs"
    by (auto dest: set_zip_leftD set_zip_rightD)
  have vp: "distinct (map fst vset) \<and> fst ` set vset \<subseteq> set vs \<and> snd ` set vset \<subseteq> set rs"
    unfolding vset_def by (rule vset_props) (use z in auto)
  have "fst ` set vset \<inter> P = {}" using vp assms(3) by auto
  moreover have "\<forall>x\<in>set vset. snd x < bg_num_vertices st \<and> 0 \<le> vweight st (fst x)"
    using vp assms(4,5) by auto
  ultimately have p1: "pools_wf (snd (for_each F vset st)) \<and>
      node_counts (fst ` set vset \<union> P) (snd (for_each F vset st))"
    unfolding F_def using vp assms(1,2) by (intro for_each_add_inv[where P = P]) auto
  obtain e st1 where r: "for_each F vset st = (e, st1)" by (cases "for_each F vset st")
  have "add_vertices vs rs st =
      (case for_each F vset st of
         (Some err, st1) \<Rightarrow> (Some err, st1)
       | (None, st1) \<Rightarrow> for_each (add_batch_edge vset) eset st1)"
    unfolding add_vertices_def Let_def vset_def eset_def F_def using True by simp
  then have av: "add_vertices vs rs st =
      (case e of Some err \<Rightarrow> (Some err, st1) | None \<Rightarrow> for_each (add_batch_edge vset) eset st1)"
    by (simp add: r split: option.splits)
  show ?thesis
  proof (cases e)
    case (Some err)
    then show ?thesis using av p1 r by auto
  next
    case None
    have "same_nodes st1 (snd (for_each (add_batch_edge vset) eset st1))"
      by (rule for_each_same) (rule add_batch_edge_same)
    then show ?thesis using av None p1 r same_nodes_pools_wf same_nodes_node_counts by auto
  qed
qed

lemma remove_vertices_pools:
  assumes "pools_wf st" "node_counts P st" "set ws \<subseteq> P"
  shows "pools_wf (snd (remove_vertices ws st)) \<and> (\<exists>P'. node_counts P' (snd (remove_vertices ws st)))"
proof -
  define eset where "eset = batch_edges (g st) (\<lambda>u. u \<in> set (remdups ws)) (remdups ws)"
  define F where "F = (\<lambda>v st'. modify_vertex False v (b st' v) (in_eset eset) st')"
  have "pools_wf (snd (for_each F (remdups ws) st)) \<and>
      (\<exists>P'. P' \<subseteq> P \<and> node_counts P' (snd (for_each F (remdups ws) st)))"
    unfolding F_def using assms by (intro for_each_remove_inv[where P = P]) auto
  then obtain P' where p1: "pools_wf (snd (for_each F (remdups ws) st))"
    "node_counts P' (snd (for_each F (remdups ws) st))" by blast
  obtain e st1 where r: "for_each F (remdups ws) st = (e, st1)"
    by (cases "for_each F (remdups ws) st")
  have "remove_vertices ws st =
      (case for_each F (remdups ws) st of
         (Some err, st1) \<Rightarrow> (Some err, st1)
       | (None, st1) \<Rightarrow> for_each remove_batch_edge eset st1)"
    unfolding remove_vertices_def Let_def eset_def F_def by (rule refl)
  then have rv: "remove_vertices ws st =
      (case e of Some err \<Rightarrow> (Some err, st1) | None \<Rightarrow> for_each remove_batch_edge eset st1)"
    by (simp add: r split: option.splits)
  show ?thesis
  proof (cases e)
    case (Some err)
    then show ?thesis using rv p1 r by auto
  next
    case None
    have "same_nodes st1 (snd (for_each remove_batch_edge eset st1))"
      by (rule for_each_same) (rule remove_batch_edge_same)
    then show ?thesis using rv None p1 r same_nodes_pools_wf same_nodes_node_counts by auto
  qed
qed

text \<open>The example states satisfy the invariant.\<close>

lemma small_blocks: "(2::nat) \<le> null_group" "(3::nat) \<le> null_group"
  by (simp_all add: null_group_def)

lemma scenario_init_wf: "pools_wf scenario_init" "node_counts {} scenario_init"
  using small_blocks(1)
  by (auto simp: pools_wf_def node_counts_def indexed_def scenario_init_def
      less_Suc_eq nth_Cons' numeral_2_eq_2)

lemma scenario_wf: "pools_wf scenario"
  using small_blocks(1)
  by (auto simp: pools_wf_def indexed_def scenario_def
      less_Suc_eq nth_Cons' numeral_2_eq_2 numeral_3_eq_3)

lemma scenario_counts_wf: "node_counts {0, 1, 2, 3} scenario"
proof -
  have s: "{v \<in> {0, 1, 2, 3}. b scenario v = 0} = {0, 1}"
    "{v \<in> {0, 1, 2, 3}. b scenario v = 1} = {2, 3}"
    by (auto simp: scenario_def)
  have w: "vweight scenario = (\<lambda>v. 1)" by (simp add: scenario_def vweight_def fun_eq_iff)
  have r: "r < bg_num_vertices scenario \<longleftrightarrow> r = 0 \<or> r = 1" for r
    by (auto simp: scenario_def)
  show ?thesis
    unfolding node_counts_def w r using s by (auto simp: scenario_def)
qed

lemma lower_level_wf: "pools_wf lower_level"
  using small_blocks(2)
  by (auto simp: pools_wf_def indexed_def lower_level_def
      less_Suc_eq nth_Cons' numeral_2_eq_2 numeral_3_eq_3)

lemma lower_level_counts_wf: "node_counts {0, 1, 2} lower_level"
proof -
  have s: "{v \<in> {0, 1, 2}. b lower_level v = 0} = {0}"
    "{v \<in> {0, 1, 2}. b lower_level v = 1} = {1, 2}"
    "{v \<in> {0, 1, 2}. b lower_level v = 2} = {}"
    by (auto simp: lower_level_def)
  have w: "vweight lower_level = (\<lambda>v. 1)" by (simp add: lower_level_def vweight_def fun_eq_iff)
  have r: "r < bg_num_vertices lower_level \<longleftrightarrow> r = 0 \<or> r = 1 \<or> r = 2" for r
    by (auto simp: lower_level_def)
  show ?thesis
    unfolding node_counts_def w r using s by (auto simp: lower_level_def)
qed

text \<open>
  Claim C3. In a state whose pools are in order and whose block weights are the sums of
  the weights of the vertices counted in them (the set \<open>P\<close>), every block is in
  \<^verbatim>\<open>empty_blocks\<close> iff its weight is 0 and in \<^verbatim>\<open>candidate_blocks\<close> iff its weight is
  positive, with the sentinel at index 0 of \<^verbatim>\<open>candidate_blocks\<close>; and each of
  \<^verbatim>\<open>add_vertex\<close> (of a vertex not yet counted), \<^verbatim>\<open>remove_vertex\<close> and \<^verbatim>\<open>move_vertex\<close> (of a
  counted vertex, from its block) and of the bulk operations \<^verbatim>\<open>add_vertices\<close>,
  \<^verbatim>\<open>remove_vertices\<close> and \<^verbatim>\<open>move_vertices\<close> leaves a state of which the same is true, the
  pools in order and the block weights the sums over some set of counted vertices again,
  so that it is true after every further operation as well. This holds for the state
  that an exception leaves behind, too.
\<close>

theorem pool_membership_preserved:
  assumes "pools_wf st" and "node_counts P st"
  shows
    "pool_membership st \<and>
     (v \<notin> P \<and> 0 \<le> vweight st v \<and> r < bg_num_vertices st \<longrightarrow>
        pool_membership (snd (add_vertex v r st)) \<and> pools_wf (snd (add_vertex v r st)) \<and>
        node_counts (insert v P) (snd (add_vertex v r st))) \<and>
     (v \<in> P \<longrightarrow>
        pool_membership (snd (remove_vertex v (b st v) st)) \<and>
        pools_wf (snd (remove_vertex v (b st v) st)) \<and>
        (\<exists>P'. node_counts P' (snd (remove_vertex v (b st v) st)))) \<and>
     (v \<in> P \<and> nr < bg_num_vertices st \<longrightarrow>
        pool_membership (level (snd (move_vertex v (b st v) nr (BlockState st up)))) \<and>
        pools_wf (level (snd (move_vertex v (b st v) nr (BlockState st up)))) \<and>
        node_counts P (level (snd (move_vertex v (b st v) nr (BlockState st up))))) \<and>
     (set vs \<inter> P = {} \<and> (\<forall>u\<in>set vs. 0 \<le> vweight st u) \<and>
      (\<forall>s\<in>set rs. s < bg_num_vertices st) \<longrightarrow>
        pool_membership (snd (add_vertices vs rs st)) \<and> pools_wf (snd (add_vertices vs rs st)) \<and>
        (\<exists>P'. node_counts P' (snd (add_vertices vs rs st)))) \<and>
     (set ws \<subseteq> P \<longrightarrow>
        pool_membership (snd (remove_vertices ws st)) \<and> pools_wf (snd (remove_vertices ws st)) \<and>
        (\<exists>P'. node_counts P' (snd (remove_vertices ws st)))) \<and>
     (set ms \<subseteq> P \<and> (\<forall>s\<in>set nrs. s < bg_num_vertices st) \<longrightarrow>
        pool_membership (level (snd (move_vertices ms nrs (BlockState st up)))) \<and>
        pools_wf (level (snd (move_vertices ms nrs (BlockState st up)))) \<and>
        node_counts P (level (snd (move_vertices ms nrs (BlockState st up)))))"
proof -
  have z: "pool_membership st" using assms(1) by (rule pools_wf_membership)
  have a: "pool_membership (snd (add_vertex v r st)) \<and> pools_wf (snd (add_vertex v r st)) \<and>
        node_counts (insert v P) (snd (add_vertex v r st))"
    if "v \<notin> P" "0 \<le> vweight st v" "r < bg_num_vertices st"
    using add_vertex_inv[OF assms that, of no_filter] pools_wf_membership
    by (simp add: add_vertex_def)
  have b: "pool_membership (snd (remove_vertex v (b st v) st)) \<and>
        pools_wf (snd (remove_vertex v (b st v) st)) \<and>
        (\<exists>P'. node_counts P' (snd (remove_vertex v (b st v) st)))" if "v \<in> P"
    using remove_vertex_inv[OF assms that, of no_filter] pools_wf_membership
    by (auto simp: remove_vertex_def)
  have c: "pool_membership (level (snd (move_vertex v (b st v) nr (BlockState st up)))) \<and>
        pools_wf (level (snd (move_vertex v (b st v) nr (BlockState st up)))) \<and>
        node_counts P (level (snd (move_vertex v (b st v) nr (BlockState st up))))"
    if "v \<in> P" "nr < bg_num_vertices st"
    using move_vertex_inv[OF assms that, of up] pools_wf_membership by blast
  have d: "pool_membership (snd (add_vertices vs rs st)) \<and> pools_wf (snd (add_vertices vs rs st)) \<and>
        (\<exists>P'. node_counts P' (snd (add_vertices vs rs st)))"
    if "set vs \<inter> P = {}" "\<forall>u\<in>set vs. 0 \<le> vweight st u" "\<forall>s\<in>set rs. s < bg_num_vertices st"
    using add_vertices_pools[OF assms that] pools_wf_membership by blast
  have e: "pool_membership (snd (remove_vertices ws st)) \<and> pools_wf (snd (remove_vertices ws st)) \<and>
        (\<exists>P'. node_counts P' (snd (remove_vertices ws st)))" if "set ws \<subseteq> P"
    using remove_vertices_pools[OF assms that] pools_wf_membership by blast
  have f: "pool_membership (level (snd (move_vertices ms nrs (BlockState st up)))) \<and>
        pools_wf (level (snd (move_vertices ms nrs (BlockState st up)))) \<and>
        node_counts P (level (snd (move_vertices ms nrs (BlockState st up))))"
    if "set ms \<subseteq> P" "\<forall>s\<in>set nrs. s < bg_num_vertices st"
  proof -
    have "\<forall>p\<in>set (zip ms nrs). fst p \<in> P \<and> snd p < bg_num_vertices (level (BlockState st up))"
      using that by (auto dest: set_zip_leftD set_zip_rightD)
    then have "pools_wf (level (snd (for_each (\<lambda>p. move_vertex2 (fst p) (snd p)) (zip ms nrs)
        (BlockState st up)))) \<and>
      node_counts P (level (snd (for_each (\<lambda>p. move_vertex2 (fst p) (snd p)) (zip ms nrs)
        (BlockState st up))))"
      using assms by (intro for_each_move_inv[where P = P]) auto
    then show ?thesis using pools_wf_membership by (simp add: move_vertices_def)
  qed
  from z a b c d e f show ?thesis by blast
qed

text \<open>
  On the example states: additions to the zeroed counters of the scenario; on the lower
  level of the hierarchy, whose vertex 0 is alone in block 0, the removal of vertex 0
  puts block 0 into the empty pool, and its move to the empty block 2 exchanges the two
  blocks between the pools.
\<close>

lemma lower_level_pools:
  "empty_blocks (snd (remove_vertex 0 0 lower_level)) = [2, 0] \<and>
   candidate_blocks (snd (remove_vertex 0 0 lower_level)) = [null_group, 1] \<and>
   empty_blocks (level (snd (move_vertex 0 0 2 (BlockState lower_level None)))) = [0] \<and>
   candidate_blocks (level (snd (move_vertex 0 0 2 (BlockState lower_level None)))) = [null_group, 1, 2]"
  by (simp add: eval_defs lower_level_def remove_vertex_def add_vertex_def move_vertex_def allow_move_def
       cong: eval_congs)

theorem pool_membership_preserved_witness:
  "pools_wf scenario_init \<and> node_counts {} scenario_init \<and>
   0 \<le> vweight scenario_init 0 \<and> 0 < bg_num_vertices scenario_init \<and>
   pool_membership (snd (add_vertex 0 0 scenario_init)) \<and>
   pool_membership (snd (add_vertices [0, 1, 2, 3] [0, 0, 1, 1] scenario_init)) \<and>
   pools_wf lower_level \<and> node_counts {0, 1, 2} lower_level \<and> 2 < bg_num_vertices lower_level \<and>
   b lower_level 0 = 0 \<and>
   pool_membership (snd (remove_vertex 0 0 lower_level)) \<and>
   empty_blocks (snd (remove_vertex 0 0 lower_level)) = [2, 0] \<and>
   candidate_blocks (snd (remove_vertex 0 0 lower_level)) = [null_group, 1] \<and>
   pool_membership (level (snd (move_vertex 0 0 2 (BlockState lower_level None)))) \<and>
   empty_blocks (level (snd (move_vertex 0 0 2 (BlockState lower_level None)))) = [0] \<and>
   candidate_blocks (level (snd (move_vertex 0 0 2 (BlockState lower_level None)))) = [null_group, 1, 2] \<and>
   pool_membership (snd (remove_vertices [0, 1] lower_level)) \<and>
   pool_membership (level (snd (move_vertices [0, 1] [2, 0] two_levels)))"
proof -
  have i: "0 \<le> vweight scenario_init u" "0 < bg_num_vertices scenario_init"
    "1 < bg_num_vertices scenario_init" for u
    by (simp_all add: scenario_init_def vweight_def)
  have l: "2 < bg_num_vertices lower_level" "0 < bg_num_vertices lower_level" "b lower_level 0 = 0"
    by (simp_all add: lower_level_def)
  note t1 = pool_membership_preserved [OF scenario_init_wf, where v = 0 and r = 0
      and vs = "[0, 1, 2, 3]" and rs = "[0, 0, 1, 1]"]
  have a: "pool_membership (snd (add_vertex 0 0 scenario_init))"
    "pool_membership (snd (add_vertices [0, 1, 2, 3] [0, 0, 1, 1] scenario_init))"
    using t1 i by simp_all
  note t2 = pool_membership_preserved [OF lower_level_wf lower_level_counts_wf, where v = 0 and nr = 2
      and ws = "[0, 1]" and ms = "[0, 1]" and nrs = "[2, 0]"]
  have b: "pool_membership (snd (remove_vertex 0 0 lower_level))"
    "pool_membership (snd (remove_vertices [0, 1] lower_level))"
    using t2 [where up = None] l by simp_all
  have c: "pool_membership (level (snd (move_vertex 0 0 2 (BlockState lower_level None))))"
    using t2 [where up = None] l by simp
  have d: "pool_membership (level (snd (move_vertices [0, 1] [2, 0] two_levels)))"
    using t2 [where up = "Some (BlockState upper_level None)"] l by (simp add: two_levels_def)
  from a b c d i(1)[of 0] i(2) l scenario_init_wf lower_level_wf lower_level_counts_wf lower_level_pools
  show ?thesis by blast
qed

end
